theory Spec2Isabelle
  imports Complex_Main "HOL-Library.Word" "HOL-Library.Log_Nat"
begin

section \<open>The arithmetic of C's double\<close>

text \<open>
  The program computes with C's \<open>double\<close>. It is modelled as the IEEE 754 binary64
  format: one sign bit, an 11-bit biased exponent field and a 52-bit fraction field, so
  that a value of the type below is exactly one 64-bit pattern and equality of two values
  is bit identity. Every operation rounds the exact real result to the nearest double,
  ties to the even fraction (the default rounding direction, which the program never
  changes), and each operation of a C expression is rounded on its own: the compiler is
  taken not to contract \<open>a * b + c\<close> into a fused operation and not to evaluate in a
  wider format. An operation that produces a NaN produces the one quiet NaN \<open>dNaN\<close>;
  which payload real hardware gives is not modelled.
\<close>

datatype double =
  Double (sign_bit: bool) (exponent_field: "11 word") (fraction_field: "52 word")

definition is_nan :: "double \<Rightarrow> bool" where
  "is_nan x \<longleftrightarrow> exponent_field x = 2047 \<and> fraction_field x \<noteq> 0"

definition is_infinity :: "double \<Rightarrow> bool" where
  "is_infinity x \<longleftrightarrow> exponent_field x = 2047 \<and> fraction_field x = 0"

definition is_finite :: "double \<Rightarrow> bool" where
  "is_finite x \<longleftrightarrow> exponent_field x \<noteq> 2047"

definition is_zero :: "double \<Rightarrow> bool" where
  "is_zero x \<longleftrightarrow> exponent_field x = 0 \<and> fraction_field x = 0"

definition dNaN :: double where
  "dNaN = Double False 2047 (2 ^ 51)"

definition pow2 :: "int \<Rightarrow> real" where
  "pow2 k = (if 0 \<le> k then 2 ^ nat k else 1 / 2 ^ nat (- k))"

text \<open>
  A finite double is \<open>mantissa * 2 ^ exponent\<close> with the sign of its sign bit: the
  hidden bit is set except in the lowest binade (exponent field 0, the subnormal numbers
  and the zeros). \<open>valof\<close> is only used on finite doubles.
\<close>

definition mantissa :: "double \<Rightarrow> int" where
  "mantissa x = (if exponent_field x = 0 then uint (fraction_field x)
                 else 2 ^ 52 + uint (fraction_field x))"

definition exponent :: "double \<Rightarrow> int" where
  "exponent x = (if exponent_field x = 0 then - 1074
                 else uint (exponent_field x) - 1075)"

definition valof :: "double \<Rightarrow> real" where
  "valof x = (if sign_bit x then - 1 else 1) * of_int (mantissa x) * pow2 (exponent x)"

text \<open>
  Rounding a positive real \<open>r\<close> to the nearest double of sign \<open>s\<close>. \<open>ilog2 r\<close> is the
  binade of \<open>r\<close> (\<open>2 ^ ilog2 r \<le> r < 2 ^ (ilog2 r + 1)\<close>), held at \<open>- 1022\<close> for
  the subnormal range; the spacing of the doubles there is \<open>2 ^ (e - 52)\<close>, and \<open>r\<close> is
  rounded to a multiple of it, a tie going to the even multiple. The fields are read off
  the integer \<open>(e + 1022) * 2 ^ 52 + m\<close>: a mantissa that rounds up to \<open>2 ^ 53\<close>
  carries into the exponent field. At and above \<open>threshold\<close> (the largest finite double
  plus half a spacing) the result is an infinity.
\<close>

definition ilog2 :: "real \<Rightarrow> int" where
  "ilog2 r = (if 1 \<le> r then bitlen \<lfloor>r\<rfloor> - 1 else - bitlen (\<lceil>1 / r\<rceil> - 1))"

definition tie_to_even :: "int \<Rightarrow> real \<Rightarrow> int" where
  "tie_to_even n d = (if d < 1 / 2 then n
                      else if 1 / 2 < d then n + 1
                      else if even n then n else n + 1)"

definition round_half_even :: "real \<Rightarrow> int" where
  "round_half_even r = tie_to_even \<lfloor>r\<rfloor> (r - of_int \<lfloor>r\<rfloor>)"

definition threshold :: real where
  "threshold = 2 ^ 1024 - 2 ^ 970"

definition encode :: "bool \<Rightarrow> int \<Rightarrow> double" where
  "encode s bits = Double s (word_of_int (bits div 2 ^ 52)) (word_of_int (bits mod 2 ^ 52))"

definition round_at :: "bool \<Rightarrow> real \<Rightarrow> int \<Rightarrow> double" where
  "round_at s r e = encode s ((e + 1022) * 2 ^ 52 + round_half_even (r / pow2 (e - 52)))"

definition fround :: "bool \<Rightarrow> real \<Rightarrow> double" where
  "fround s r =
     (if r = 0 then Double s 0 0
      else if threshold \<le> r then Double s 2047 0
      else round_at s r (max (ilog2 r) (- 1022)))"

text \<open>The unary minus of C flips the sign bit.\<close>

definition fneg :: "double \<Rightarrow> double" where
  "fneg x = Double (\<not> sign_bit x) (exponent_field x) (fraction_field x)"

text \<open>
  \<open>x + y\<close>. An exact sum of zero is \<open>+0\<close>, except that \<open>(-0) + (-0)\<close> is \<open>-0\<close>.
\<close>

definition fadd :: "double \<Rightarrow> double \<Rightarrow> double" where
  "fadd x y =
     (if is_nan x \<or> is_nan y then dNaN
      else if is_infinity x then
        (if is_infinity y \<and> sign_bit x \<noteq> sign_bit y then dNaN else x)
      else if is_infinity y then y
      else if valof x + valof y = 0 then Double (sign_bit x \<and> sign_bit y) 0 0
      else fround (valof x + valof y < 0) \<bar>valof x + valof y\<bar>)"

text \<open>\<open>x - y\<close> is \<open>x + (- y)\<close>.\<close>

definition fsub :: "double \<Rightarrow> double \<Rightarrow> double" where
  "fsub x y = fadd x (fneg y)"

text \<open>\<open>x * y\<close>: the sign is the exclusive or of the signs; zero times infinity is a NaN.\<close>

definition fmul :: "double \<Rightarrow> double \<Rightarrow> double" where
  "fmul x y =
     (if is_nan x \<or> is_nan y then dNaN
      else if is_infinity x \<or> is_infinity y then
        (if is_zero x \<or> is_zero y then dNaN else Double (sign_bit x \<noteq> sign_bit y) 2047 0)
      else fround (sign_bit x \<noteq> sign_bit y) (\<bar>valof x\<bar> * \<bar>valof y\<bar>))"

text \<open>\<open>x / y\<close>.\<close>

definition fdiv :: "double \<Rightarrow> double \<Rightarrow> double" where
  "fdiv x y =
     (if is_nan x \<or> is_nan y then dNaN
      else if is_infinity x then
        (if is_infinity y then dNaN else Double (sign_bit x \<noteq> sign_bit y) 2047 0)
      else if is_infinity y then Double (sign_bit x \<noteq> sign_bit y) 0 0
      else if is_zero y then
        (if is_zero x then dNaN else Double (sign_bit x \<noteq> sign_bit y) 2047 0)
      else fround (sign_bit x \<noteq> sign_bit y) (\<bar>valof x\<bar> / \<bar>valof y\<bar>))"

text \<open>
  A constant of the program text (\<open>6.0\<close>, \<open>0.0\<close>, \<open>0.0001\<close>, or an integer constant
  converted in an initialiser) denotes the double nearest to its decimal value.
\<close>

definition double_of_real :: "real \<Rightarrow> double" where
  "double_of_real r = fround (r < 0) \<bar>r\<bar>"

text \<open>
  The comparisons \<open>==\<close> and \<open><\<close> of C: a NaN compares unequal to everything, the two
  zeros compare equal.
\<close>

definition extended_less :: "double \<Rightarrow> double \<Rightarrow> bool" where
  "extended_less x y =
     (if is_infinity x then sign_bit x \<and> \<not> (is_infinity y \<and> sign_bit y)
      else if is_infinity y then \<not> sign_bit y
      else valof x < valof y)"

definition flt :: "double \<Rightarrow> double \<Rightarrow> bool" where
  "flt x y \<longleftrightarrow> \<not> is_nan x \<and> \<not> is_nan y \<and> extended_less x y"

definition feq :: "double \<Rightarrow> double \<Rightarrow> bool" where
  "feq x y \<longleftrightarrow> \<not> is_nan x \<and> \<not> is_nan y \<and> (x = y \<or> is_zero x \<and> is_zero y)"


section \<open>The program\<close>

subsection \<open>Data\<close>

text \<open>
  \<open>typedef double vector3d[3]\<close>: three coordinates, read through the index macros
  \<open>X\<close>, \<open>Y\<close> and \<open>Z\<close>. The program reads no other index of a \<open>vector3d\<close>.
\<close>

type_synonym vector3d = "double \<times> double \<times> double"

definition X :: nat where "X = 0"
definition Y :: nat where "Y = 1"
definition Z :: nat where "Z = 2"

fun coord :: "vector3d \<Rightarrow> nat \<Rightarrow> double" where
  "coord (x, y, z) i = (if i = X then x else if i = Y then y else z)"

text \<open>
  An array behind a pointer is the list of its elements. Reading outside the array, and
  an \<open>int\<close> computation that leaves the range of \<open>int\<close>, are undefined behaviour in C;
  the model returns an error there. \<open>int\<close> is taken to be 32 bits wide, and a parameter
  or array element of type \<open>int\<close> is an integer of that range.
\<close>

datatype error = OutOfBounds | SignedOverflow

definition INT_MAX :: int where "INT_MAX = 2147483647"
definition INT_MIN :: int where "INT_MIN = - 2147483648"

definition c_int :: "int \<Rightarrow> error + int" where
  "c_int v = (if INT_MIN \<le> v \<and> v \<le> INT_MAX then Inr v else Inl SignedOverflow)"

definition array_read :: "'a list \<Rightarrow> int \<Rightarrow> error + 'a" where
  "array_read a k = (if 0 \<le> k \<and> k < int (length a) then Inr (a ! nat k) else Inl OutOfBounds)"

text \<open>The constants \<open>0.0\<close> and \<open>6.0\<close> of the program text.\<close>

definition lit_0_0 :: double where "lit_0_0 = double_of_real 0"
definition lit_6_0 :: double where "lit_6_0 = double_of_real 6"

subsection \<open>tetrahedron_volume\<close>

text \<open>
  The argument points to at least four vectors (the function reads
  \<open>tetrahedron[0]\<close> to \<open>tetrahedron[3]\<close>).
\<close>

definition tetrahedron_volume :: "vector3d list \<Rightarrow> error + double" where
  "tetrahedron_volume tetrahedron =
     (if length tetrahedron < 4 then Inl OutOfBounds
      else
        let ax = fsub (coord (tetrahedron ! 0) X) (coord (tetrahedron ! 3) X);
            ay = fsub (coord (tetrahedron ! 0) Y) (coord (tetrahedron ! 3) Y);
            az = fsub (coord (tetrahedron ! 0) Z) (coord (tetrahedron ! 3) Z);
            bx = fsub (coord (tetrahedron ! 1) X) (coord (tetrahedron ! 3) X);
            by = fsub (coord (tetrahedron ! 1) Y) (coord (tetrahedron ! 3) Y);
            bz = fsub (coord (tetrahedron ! 1) Z) (coord (tetrahedron ! 3) Z);
            cx = fsub (coord (tetrahedron ! 2) X) (coord (tetrahedron ! 3) X);
            cy = fsub (coord (tetrahedron ! 2) Y) (coord (tetrahedron ! 3) Y);
            cz = fsub (coord (tetrahedron ! 2) Z) (coord (tetrahedron ! 3) Z);
            vol = fdiv (fadd (fadd (fmul ax (fsub (fmul by cz) (fmul bz cy)))
                                   (fmul ay (fsub (fmul bz cx) (fmul bx cz))))
                             (fmul az (fsub (fmul bx cy) (fmul by cx))))
                       lit_6_0
        in Inr vol)"

subsection \<open>calculate_volume\<close>

text \<open>
  The inner loop \<open>for (j = 0; j < 3; j++)\<close>: it reads \<open>vector_indices[(i * 3) + j]\<close>
  and copies the vector of that index into \<open>tetrahedron[j]\<close>.
\<close>

function copy_face :: "vector3d list \<Rightarrow> int list \<Rightarrow> int \<Rightarrow> int \<Rightarrow> vector3d list
    \<Rightarrow> error + vector3d list" where
  "copy_face vectors vector_indices i j tetrahedron =
     (if j < 3 then
        (case c_int (i * 3) of Inl e \<Rightarrow> Inl e | Inr i3 \<Rightarrow>
         (case c_int (i3 + j) of Inl e \<Rightarrow> Inl e | Inr k \<Rightarrow>
          (case array_read vector_indices k of Inl e \<Rightarrow> Inl e | Inr index \<Rightarrow>
           (case array_read vectors index of Inl e \<Rightarrow> Inl e | Inr v \<Rightarrow>
              copy_face vectors vector_indices i (j + 1) (tetrahedron[nat j := v])))))
      else Inr tetrahedron)"
  by pat_completeness auto
termination
  by (relation "measure (\<lambda>(vectors, vector_indices, i, j, tetrahedron). nat (3 - j))") auto

declare copy_face.simps [simp del]

text \<open>
  The body of the outer loop up to the call: the buffer is cleared (all bits zero is
  \<open>+0.0\<close>), the three vertices of face \<open>i\<close> are copied in, and \<open>vectors[0]\<close> is copied
  into \<open>tetrahedron[3]\<close>.
\<close>

definition fill_tetrahedron :: "vector3d list \<Rightarrow> int list \<Rightarrow> int \<Rightarrow> error + vector3d list" where
  "fill_tetrahedron vectors vector_indices i =
     (case copy_face vectors vector_indices i 0
             (replicate 4 (Double False 0 0, Double False 0 0, Double False 0 0)) of
        Inl e \<Rightarrow> Inl e
      | Inr tetrahedron \<Rightarrow>
         (case array_read vectors 0 of Inl e \<Rightarrow> Inl e
          | Inr v0 \<Rightarrow> Inr (tetrahedron[3 := v0])))"

text \<open>The outer loop \<open>for (i = 0; i < num_trfaces; i++)\<close>, with the running \<open>volume\<close>.\<close>

function face_loop :: "vector3d list \<Rightarrow> int \<Rightarrow> int list \<Rightarrow> int \<Rightarrow> double \<Rightarrow> error + double" where
  "face_loop vectors num_trfaces vector_indices i volume =
     (if i < num_trfaces then
        (case fill_tetrahedron vectors vector_indices i of Inl e \<Rightarrow> Inl e
         | Inr tetrahedron \<Rightarrow>
            (case tetrahedron_volume tetrahedron of Inl e \<Rightarrow> Inl e
             | Inr v \<Rightarrow> face_loop vectors num_trfaces vector_indices (i + 1) (fadd volume v)))
      else Inr volume)"
  by pat_completeness auto
termination
  by (relation "measure (\<lambda>(vectors, num_trfaces, vector_indices, i, volume). nat (num_trfaces - i))")
    auto

declare face_loop.simps [simp del]

definition calculate_volume :: "int \<Rightarrow> vector3d list \<Rightarrow> int \<Rightarrow> int list \<Rightarrow> error + double" where
  "calculate_volume num_vertices vectors num_trfaces vector_indices =
     face_loop vectors num_trfaces vector_indices 0 lit_0_0"

subsection \<open>calculate_volume_qfhexahedron\<close>

definition calculate_volume_qfhexahedron :: "vector3d list \<Rightarrow> error + double" where
  "calculate_volume_qfhexahedron vertices =
     calculate_volume 8 vertices 12
       [0, 2, 1,
        0, 3, 2,
        4, 5, 6,
        4, 6, 7,
        0, 5, 4,
        0, 1, 5,
        1, 6, 5,
        1, 2, 6,
        3, 6, 2,
        3, 7, 6,
        0, 7, 3,
        0, 4, 7]"


section \<open>The specification's description of the two operations\<close>

text \<open>
  Section 4.1 of the specification: \<open>a = p0 - p3\<close>, \<open>b = p1 - p3\<close>, \<open>c = p2 - p3\<close>
  component by component, then the scalar triple product expanded as
  \<open>a.x*(b.y*c.z - b.z*c.y) + a.y*(b.z*c.x - b.x*c.z) + a.z*(b.x*c.y - b.y*c.x)\<close>,
  divided by \<open>6.0\<close>.
\<close>

definition vx :: "vector3d \<Rightarrow> double" where "vx p = fst p"
definition vy :: "vector3d \<Rightarrow> double" where "vy p = fst (snd p)"
definition vz :: "vector3d \<Rightarrow> double" where "vz p = snd (snd p)"

definition vsub :: "vector3d \<Rightarrow> vector3d \<Rightarrow> vector3d" where
  "vsub p q = (fsub (vx p) (vx q), fsub (vy p) (vy q), fsub (vz p) (vz q))"

definition cross_x :: "vector3d \<Rightarrow> vector3d \<Rightarrow> double" where
  "cross_x b c = fsub (fmul (vy b) (vz c)) (fmul (vz b) (vy c))"

definition cross_y :: "vector3d \<Rightarrow> vector3d \<Rightarrow> double" where
  "cross_y b c = fsub (fmul (vz b) (vx c)) (fmul (vx b) (vz c))"

definition cross_z :: "vector3d \<Rightarrow> vector3d \<Rightarrow> double" where
  "cross_z b c = fsub (fmul (vx b) (vy c)) (fmul (vy b) (vx c))"

definition scalar_triple_product :: "vector3d \<Rightarrow> vector3d \<Rightarrow> vector3d \<Rightarrow> double" where
  "scalar_triple_product a b c =
     fadd (fadd (fmul (vx a) (cross_x b c)) (fmul (vy a) (cross_y b c)))
          (fmul (vz a) (cross_z b c))"

definition tetrahedronVolume :: "vector3d \<Rightarrow> vector3d \<Rightarrow> vector3d \<Rightarrow> vector3d \<Rightarrow> double" where
  "tetrahedronVolume p0 p1 p2 p3 =
     fdiv (scalar_triple_product (vsub p0 p3) (vsub p1 p3) (vsub p2 p3)) lit_6_0"

text \<open>
  Section 4.2: the face list is the flat sequence of indices read three at a time; the
  total starts at \<open>0.0\<close> and each face \<open>(i, j, k)\<close>, in list order, adds the volume of
  the tetrahedron \<open>vertices[i], vertices[j], vertices[k], vertices[0]\<close>.
\<close>

fun faces :: "int list \<Rightarrow> (int \<times> int \<times> int) list" where
  "faces (i # j # k # rest) = (i, j, k) # faces rest"
| "faces rest = []"

fun add_face :: "vector3d list \<Rightarrow> double \<Rightarrow> int \<times> int \<times> int \<Rightarrow> double" where
  "add_face vertices acc (i, j, k) =
     fadd acc (tetrahedronVolume (vertices ! nat i) (vertices ! nat j)
                                 (vertices ! nat k) (vertices ! 0))"

definition polyhedronVolume :: "vector3d list \<Rightarrow> (int \<times> int \<times> int) list \<Rightarrow> double" where
  "polyhedronVolume vertices fs = foldl (add_face vertices) lit_0_0 fs"


section \<open>The test data of the program\<close>

text \<open>
  The initialisers of the test functions hold integer constants, converted to \<open>double\<close>.
\<close>

definition vec :: "real \<Rightarrow> real \<Rightarrow> real \<Rightarrow> vector3d" where
  "vec x y z = (double_of_real x, double_of_real y, double_of_real z)"

text \<open>\<open>test_pyramid\<close>.\<close>

definition test_pyramid_vertices :: "vector3d list" where
  "test_pyramid_vertices = [vec 0 0 0, vec 1 0 0, vec 0 1 0, vec 1 1 1]"

definition test_pyramid_vector_indices :: "int list" where
  "test_pyramid_vector_indices =
     [1, 0, 2,
      1, 3, 0,
      2, 3, 0,
      1, 2, 3]"

text \<open>\<open>test_parallelepiped\<close> and \<open>test_slanted_parallelepiped\<close>.\<close>

definition test_parallelepiped_vertices :: "vector3d list" where
  "test_parallelepiped_vertices =
     [vec 0 0 0, vec 4 0 0, vec 4 2 0, vec 0 2 0, vec 0 0 2, vec 4 0 2, vec 4 2 2, vec 0 2 2]"

definition test_slanted_parallelepiped_vertices :: "vector3d list" where
  "test_slanted_parallelepiped_vertices =
     [vec 0 0 0, vec 4 0 0, vec 4 2 0, vec 0 2 0, vec 0 1 2, vec 4 1 2, vec 4 3 2, vec 0 3 2]"

definition EPSILON :: double where
  "EPSILON = double_of_real (1 / 10000)"

section \<open>Notions used in the statements\<close>

text \<open>Face \<open>i\<close> can be read: no index computation overflows and no read is out of range.\<close>

definition face_ok :: "vector3d list \<Rightarrow> int list \<Rightarrow> int \<Rightarrow> bool" where
  "face_ok vectors vector_indices i \<longleftrightarrow>
     0 \<le> i \<and> 3 * i + 2 \<le> INT_MAX \<and> 3 * i + 2 < int (length vector_indices) \<and>
     (\<forall>j \<in> {0, 1, 2}. 0 \<le> vector_indices ! nat (3 * i + j) \<and>
         vector_indices ! nat (3 * i + j) < int (length vectors))"

text \<open>
  Translating a point by a vector is three additions of doubles. An addition is exact
  when its operands and its result are finite and the result is the real sum.
\<close>

definition translate :: "vector3d \<Rightarrow> vector3d \<Rightarrow> vector3d" where
  "translate p t = (fadd (vx p) (vx t), fadd (vy p) (vy t), fadd (vz p) (vz t))"

definition exact_add :: "double \<Rightarrow> double \<Rightarrow> bool" where
  "exact_add x t \<longleftrightarrow> is_finite x \<and> is_finite t \<and> is_finite (fadd x t) \<and>
     valof (fadd x t) = valof x + valof t"

definition exact_translation :: "vector3d \<Rightarrow> vector3d \<Rightarrow> bool" where
  "exact_translation p t \<longleftrightarrow>
     exact_add (vx p) (vx t) \<and> exact_add (vy p) (vy t) \<and> exact_add (vz p) (vz t)"

text \<open>Two doubles that are the same bit pattern, or both a zero (of either sign).\<close>

definition same_number :: "double \<Rightarrow> double \<Rightarrow> bool" where
  "same_number x y \<longleftrightarrow> x = y \<or> is_zero x \<and> is_zero y"

text \<open>
  \<open>x\<close> is \<open>y\<close> with the sign bit flipped; the relation also holds between two NaNs
  and between two zeros, where the sign carries no information.
\<close>

definition opposite :: "double \<Rightarrow> double \<Rightarrow> bool" where
  "opposite x y \<longleftrightarrow> is_nan x \<and> is_nan y \<or> is_zero x \<and> is_zero y \<or> x = fneg y"

definition finite_vec :: "vector3d \<Rightarrow> bool" where
  "finite_vec v \<longleftrightarrow> is_finite (vx v) \<and> is_finite (vy v) \<and> is_finite (vz v)"

definition zero_vec :: "vector3d \<Rightarrow> bool" where
  "zero_vec v \<longleftrightarrow> is_zero (vx v) \<and> is_zero (vy v) \<and> is_zero (vz v)"

text \<open>
  No intermediate result of \<open>tetrahedron_volume\<close> up to the cross product is an
  infinity or a NaN: the nine differences and the three components
  \<open>b.y*c.z - b.z*c.y\<close>, \<open>b.z*c.x - b.x*c.z\<close>, \<open>b.x*c.y - b.y*c.x\<close> are finite.
\<close>

definition no_overflow :: "vector3d \<Rightarrow> vector3d \<Rightarrow> vector3d \<Rightarrow> vector3d \<Rightarrow> bool" where
  "no_overflow p0 p1 p2 p3 \<longleftrightarrow>
     finite_vec (vsub p0 p3) \<and> finite_vec (vsub p1 p3) \<and> finite_vec (vsub p2 p3) \<and>
     is_finite (cross_x (vsub p1 p3) (vsub p2 p3)) \<and>
     is_finite (cross_y (vsub p1 p3) (vsub p2 p3)) \<and>
     is_finite (cross_z (vsub p1 p3) (vsub p2 p3))"

text \<open>A vector of finite coordinates of magnitude at most \<open>2 ^ k\<close>.\<close>

definition bounded_vec :: "int \<Rightarrow> vector3d \<Rightarrow> bool" where
  "bounded_vec k v \<longleftrightarrow> finite_vec v \<and>
     \<bar>valof (vx v)\<bar> \<le> pow2 k \<and> \<bar>valof (vy v)\<bar> \<le> pow2 k \<and> \<bar>valof (vz v)\<bar> \<le> pow2 k"

section \<open>The loops of calculate_volume\<close>

lemma coord_simps: "coord p X = vx p" "coord p Y = vy p" "coord p Z = vz p"
  by (cases p; simp add: X_def Y_def Z_def vx_def vy_def vz_def)+

lemma tetrahedron_volume_points:
  "tetrahedron_volume (p0 # p1 # p2 # p3 # rest) = Inr (tetrahedronVolume p0 p1 p2 p3)"
  by (simp add: tetrahedron_volume_def tetrahedronVolume_def scalar_triple_product_def
      cross_x_def cross_y_def cross_z_def vsub_def coord_simps Let_def vx_def vy_def vz_def)

lemma c_int_ok: "INT_MIN \<le> v \<Longrightarrow> v \<le> INT_MAX \<Longrightarrow> c_int v = Inr v"
  by (simp add: c_int_def)

lemma array_read_ok: "0 \<le> k \<Longrightarrow> k < int (length a) \<Longrightarrow> array_read a k = Inr (a ! nat k)"
  by (simp add: array_read_def)

lemma copy_face_step:
  assumes "0 \<le> i" "3 * i + 2 \<le> INT_MAX" "3 * i + 2 < int (length vector_indices)"
    and "0 \<le> j" "j < 3"
    and "0 \<le> vector_indices ! nat (3 * i + j)"
    and "vector_indices ! nat (3 * i + j) < int (length vectors)"
  shows "copy_face vectors vector_indices i j t =
         copy_face vectors vector_indices i (j + 1)
           (t[nat j := vectors ! nat (vector_indices ! nat (3 * i + j))])"
proof -
  have a: "c_int (i * 3) = Inr (3 * i)"
    using assms by (simp add: c_int_def INT_MIN_def)
  have b: "c_int (3 * i + j) = Inr (3 * i + j)"
    using assms by (intro c_int_ok) (simp_all add: INT_MIN_def)
  have c: "array_read vector_indices (3 * i + j) = Inr (vector_indices ! nat (3 * i + j))"
    using assms by (intro array_read_ok) simp_all
  have e: "array_read vectors (vector_indices ! nat (3 * i + j)) =
           Inr (vectors ! nat (vector_indices ! nat (3 * i + j)))"
    using assms by (intro array_read_ok) simp_all
  show ?thesis
    using assms(5) by (subst copy_face.simps) (simp add: a b c e)
qed

lemma fill_tetrahedron_ok:
  assumes "face_ok vectors vector_indices i"
  shows "fill_tetrahedron vectors vector_indices i =
         Inr [vectors ! nat (vector_indices ! nat (3 * i)),
              vectors ! nat (vector_indices ! nat (3 * i + 1)),
              vectors ! nat (vector_indices ! nat (3 * i + 2)),
              vectors ! 0]"
proof -
  from assms have i: "0 \<le> i" "3 * i + 2 \<le> INT_MAX" "3 * i + 2 < int (length vector_indices)"
    and j0: "0 \<le> vector_indices ! nat (3 * i + 0)"
            "vector_indices ! nat (3 * i + 0) < int (length vectors)"
    and j1: "0 \<le> vector_indices ! nat (3 * i + 1)"
            "vector_indices ! nat (3 * i + 1) < int (length vectors)"
    and j2: "0 \<le> vector_indices ! nat (3 * i + 2)"
            "vector_indices ! nat (3 * i + 2) < int (length vectors)"
    by (simp_all add: face_ok_def)
  have ne: "0 < int (length vectors)" using j0 by linarith
  have s0: "copy_face vectors vector_indices i 0 t =
            copy_face vectors vector_indices i 1
              (t[0 := vectors ! nat (vector_indices ! nat (3 * i))])" for t
    using copy_face_step[OF i _ _ j0, of t] by simp
  have s1: "copy_face vectors vector_indices i 1 t =
            copy_face vectors vector_indices i 2
              (t[1 := vectors ! nat (vector_indices ! nat (3 * i + 1))])" for t
    using copy_face_step[OF i _ _ j1, of t] by simp
  have s2: "copy_face vectors vector_indices i 2 t =
            copy_face vectors vector_indices i 3
              (t[2 := vectors ! nat (vector_indices ! nat (3 * i + 2))])" for t
    using copy_face_step[OF i _ _ j2, of t] by simp
  have s3: "copy_face vectors vector_indices i 3 t = Inr t" for t
    by (subst copy_face.simps) simp
  have r: "array_read vectors 0 = Inr (vectors ! 0)"
    using ne by (simp add: array_read_def)
  show ?thesis
    by (simp add: fill_tetrahedron_def s0 s1 s2 s3 r numeral_eq_Suc)
qed

lemma drop_three:
  assumes "k + 2 < length xs"
  shows "drop k xs = xs ! k # xs ! (k + 1) # xs ! (k + 2) # drop (k + 3) xs"
proof -
  have "drop k xs = xs ! k # drop (Suc k) xs"
    using assms by (simp add: Cons_nth_drop_Suc)
  also have "drop (Suc k) xs = xs ! (k + 1) # drop (Suc (Suc k)) xs"
    using assms by (simp add: Cons_nth_drop_Suc)
  also have "drop (Suc (Suc k)) xs = xs ! (k + 2) # drop (Suc (Suc (Suc k))) xs"
    using assms by (simp add: Cons_nth_drop_Suc)
  finally show ?thesis by (simp add: numeral_3_eq_3)
qed

lemma faces_step:
  assumes "k + 2 < length xs"
  shows "faces (take (3 * Suc m) (drop k xs)) =
         (xs ! k, xs ! (k + 1), xs ! (k + 2)) # faces (take (3 * m) (drop (k + 3) xs))"
proof -
  have "take (3 * Suc m) (drop k xs) =
        xs ! k # xs ! (k + 1) # xs ! (k + 2) # take (3 * m) (drop (k + 3) xs)"
    by (subst drop_three[OF assms]) (simp add: numeral_3_eq_3)
  then show ?thesis by simp
qed

lemma face_loop_fold:
  assumes "\<And>k. i \<le> k \<Longrightarrow> k < n \<Longrightarrow> face_ok vectors vector_indices k" and "0 \<le> i"
  shows "face_loop vectors n vector_indices i volume =
         Inr (foldl (add_face vectors) volume
                (faces (take (3 * nat (n - i)) (drop (3 * nat i) vector_indices))))"
  using assms
proof (induction "nat (n - i)" arbitrary: i volume)
  case 0
  then have "\<not> i < n" by simp
  then show ?case using 0 by (subst face_loop.simps) simp
next
  case (Suc m)
  then have lt: "i < n" and m: "m = nat (n - (i + 1))" by linarith+
  have ok: "face_ok vectors vector_indices i" using Suc.prems lt by simp
  then have len: "3 * nat i + 2 < length vector_indices"
    using Suc.prems(2) by (simp add: face_ok_def) linarith
  have idx: "nat (3 * i) = 3 * nat i" "nat (3 * i + 1) = 3 * nat i + 1"
    "nat (3 * i + 2) = 3 * nat i + 2"
    using Suc.prems(2) by linarith+
  let ?v = "tetrahedronVolume (vectors ! nat (vector_indices ! (3 * nat i)))
              (vectors ! nat (vector_indices ! (3 * nat i + 1)))
              (vectors ! nat (vector_indices ! (3 * nat i + 2))) (vectors ! 0)"
  have "face_loop vectors n vector_indices i volume =
        face_loop vectors n vector_indices (i + 1) (fadd volume ?v)"
    using lt by (subst face_loop.simps)
      (simp add: fill_tetrahedron_ok[OF ok] tetrahedron_volume_points idx)
  also have "\<dots> = Inr (foldl (add_face vectors) (fadd volume ?v)
                (faces (take (3 * nat (n - (i + 1))) (drop (3 * nat (i + 1)) vector_indices))))"
    using Suc.prems by (intro Suc.hyps(1)[OF m]) simp_all
  also have "3 * nat (i + 1) = 3 * nat i + 3" using Suc.prems(2) by linarith
  finally have step: "face_loop vectors n vector_indices i volume =
      Inr (foldl (add_face vectors) (fadd volume ?v)
             (faces (take (3 * m) (drop (3 * nat i + 3) vector_indices))))"
    using m by simp
  have "nat (n - i) = Suc m" using Suc.hyps(2) by simp
  then show ?case
    by (simp only: step faces_step[OF len] foldl_Cons add_face.simps)
qed

lemma calculate_volume_fold:
  assumes len: "3 * num_trfaces \<le> int (length vector_indices)"
    and ovf: "3 * num_trfaces - 1 \<le> INT_MAX"
    and rng: "\<forall>x \<in> set (take (nat (3 * num_trfaces)) vector_indices).
                0 \<le> x \<and> x < int (length vectors)"
  shows "calculate_volume num_vertices vectors num_trfaces vector_indices =
         Inr (polyhedronVolume vectors (faces (take (nat (3 * num_trfaces)) vector_indices)))"
proof -
  have nth: "0 \<le> vector_indices ! n \<and> vector_indices ! n < int (length vectors)"
    if "n < nat (3 * num_trfaces)" for n
  proof -
    from that len have "n < length (take (nat (3 * num_trfaces)) vector_indices)" by simp
    then have "take (nat (3 * num_trfaces)) vector_indices ! n
               \<in> set (take (nat (3 * num_trfaces)) vector_indices)"
      by (rule nth_mem)
    with rng that show ?thesis by simp
  qed
  have ok: "face_ok vectors vector_indices k" if "0 \<le> k" "k < num_trfaces" for k
    unfolding face_ok_def
  proof (intro conjI ballI)
    fix j :: int assume "j \<in> {0, 1, 2}"
    then have "nat (3 * k + j) < nat (3 * num_trfaces)" using that by auto
    then show "0 \<le> vector_indices ! nat (3 * k + j)"
      and "vector_indices ! nat (3 * k + j) < int (length vectors)"
      using nth by blast+
  qed (use that len ovf in linarith)+
  have "face_loop vectors num_trfaces vector_indices 0 lit_0_0 =
        Inr (foldl (add_face vectors) lit_0_0
               (faces (take (3 * nat (num_trfaces - 0)) (drop (3 * nat 0) vector_indices))))"
    by (rule face_loop_fold) (use ok in simp_all)
  moreover have "3 * nat num_trfaces = nat (3 * num_trfaces)" by linarith
  ultimately show ?thesis
    by (simp add: calculate_volume_def polyhedronVolume_def)
qed

text \<open>
  When the index computation leaves the range of \<open>int\<close>: face \<open>k\<close> is the first one
  whose last index \<open>k * 3 + 2\<close> is above \<open>INT_MAX\<close>. The faces before it are read and
  added, the first two indices of face \<open>k\<close> are read, and the third index computation
  overflows.
\<close>

lemma copy_face_step_at:
  assumes "0 \<le> i" "3 * i + j \<le> INT_MAX" "3 * i + j < int (length vector_indices)"
    and "0 \<le> j" "j < 3"
    and "0 \<le> vector_indices ! nat (3 * i + j)"
    and "vector_indices ! nat (3 * i + j) < int (length vectors)"
  shows "copy_face vectors vector_indices i j t =
         copy_face vectors vector_indices i (j + 1)
           (t[nat j := vectors ! nat (vector_indices ! nat (3 * i + j))])"
proof -
  have a: "c_int (i * 3) = Inr (3 * i)"
    using assms by (simp add: c_int_def INT_MIN_def)
  have b: "c_int (3 * i + j) = Inr (3 * i + j)"
    using assms by (intro c_int_ok) (simp_all add: INT_MIN_def)
  have c: "array_read vector_indices (3 * i + j) = Inr (vector_indices ! nat (3 * i + j))"
    using assms by (intro array_read_ok) simp_all
  have e: "array_read vectors (vector_indices ! nat (3 * i + j)) =
           Inr (vectors ! nat (vector_indices ! nat (3 * i + j)))"
    using assms by (intro array_read_ok) simp_all
  show ?thesis
    using assms(5) by (subst copy_face.simps) (simp add: a b c e)
qed

lemma copy_face_overflow:
  assumes "0 \<le> i" "3 * i \<le> INT_MAX" "INT_MAX < 3 * i + j" "j < 3"
  shows "copy_face vectors vector_indices i j t = Inl SignedOverflow"
proof -
  have a: "c_int (i * 3) = Inr (3 * i)"
    using assms by (simp add: c_int_def INT_MIN_def)
  have b: "c_int (3 * i + j) = Inl SignedOverflow"
    using assms by (simp add: c_int_def)
  show ?thesis
    using assms(4) by (subst copy_face.simps) (simp add: a b)
qed

lemma fill_tetrahedron_overflow:
  assumes i: "0 \<le> i" and fit: "3 * i + 1 \<le> INT_MAX" and ovf: "INT_MAX < 3 * i + 2"
    and len: "3 * i + 1 < int (length vector_indices)"
    and j0: "0 \<le> vector_indices ! nat (3 * i)"
            "vector_indices ! nat (3 * i) < int (length vectors)"
    and j1: "0 \<le> vector_indices ! nat (3 * i + 1)"
            "vector_indices ! nat (3 * i + 1) < int (length vectors)"
  shows "fill_tetrahedron vectors vector_indices i = Inl SignedOverflow"
proof -
  have s0: "copy_face vectors vector_indices i 0 t =
            copy_face vectors vector_indices i 1
              (t[0 := vectors ! nat (vector_indices ! nat (3 * i))])" for t
    using copy_face_step_at[of i 0 vector_indices vectors t] i fit len j0 by simp
  have s1: "copy_face vectors vector_indices i 1 t =
            copy_face vectors vector_indices i 2
              (t[1 := vectors ! nat (vector_indices ! nat (3 * i + 1))])" for t
    using copy_face_step_at[of i 1 vector_indices vectors t] i fit len j1 by simp
  have s2: "copy_face vectors vector_indices i 2 t = Inl SignedOverflow" for t
    using i fit ovf by (intro copy_face_overflow) simp_all
  show ?thesis
    by (simp add: fill_tetrahedron_def s0 s1 s2)
qed

lemma face_loop_overflow:
  assumes "0 \<le> i" and "i \<le> k" and "k < n"
    and fit: "3 * k + 1 \<le> INT_MAX" and ovf: "INT_MAX < 3 * k + 2"
    and len: "3 * k + 1 < int (length vector_indices)"
    and rng: "\<And>m. m < nat (3 * k + 2) \<Longrightarrow>
                0 \<le> vector_indices ! m \<and> vector_indices ! m < int (length vectors)"
  shows "face_loop vectors n vector_indices i volume = Inl SignedOverflow"
  using assms(1,2)
proof (induction "nat (k - i)" arbitrary: i volume)
  case 0
  then have ik: "i = k" by simp
  have "fill_tetrahedron vectors vector_indices k = Inl SignedOverflow"
    using \<open>0 \<le> i\<close> fit ovf len rng[of "nat (3 * k)"] rng[of "nat (3 * k + 1)"]
    unfolding ik by (intro fill_tetrahedron_overflow) simp_all
  then show ?case
    unfolding ik using \<open>k < n\<close> by (subst face_loop.simps) simp
next
  case (Suc d)
  then have lt: "i < k" and d: "d = nat (k - (i + 1))" by linarith+
  have ok: "face_ok vectors vector_indices i"
    unfolding face_ok_def
  proof (intro conjI ballI)
    fix j :: int assume "j \<in> {0, 1, 2}"
    then have "nat (3 * i + j) < nat (3 * k + 2)" using lt Suc.prems by auto
    then show "0 \<le> vector_indices ! nat (3 * i + j)"
      and "vector_indices ! nat (3 * i + j) < int (length vectors)"
      using rng by blast+
  qed (use lt Suc.prems fit len in linarith)+
  obtain v where v: "tetrahedron_volume
      [vectors ! nat (vector_indices ! nat (3 * i)),
       vectors ! nat (vector_indices ! nat (3 * i + 1)),
       vectors ! nat (vector_indices ! nat (3 * i + 2)), vectors ! 0] = Inr v"
    by (simp add: tetrahedron_volume_points)
  have "face_loop vectors n vector_indices i volume =
        face_loop vectors n vector_indices (i + 1) (fadd volume v)"
    using lt \<open>k < n\<close> by (subst face_loop.simps) (simp add: fill_tetrahedron_ok[OF ok] v)
  also have "\<dots> = Inl SignedOverflow"
    using Suc.prems lt by (intro Suc.hyps(1)[OF d]) simp_all
  finally show ?case .
qed


section \<open>Evaluating the arithmetic\<close>

text \<open>
  Rules that compute the operations on given doubles by rewriting. Below \<open>2 ^ 64\<close> a
  positive real is under the overflow threshold, so that the comparison with the
  threshold is not computed each time.
\<close>

lemma fround_zero: "fround s 0 = Double s 0 0"
  by (simp add: fround_def)

lemma threshold_gt: "2 ^ 64 < threshold"
proof -
  have "(2::real) ^ 64 < 2 ^ 969" by (rule power_strict_increasing) simp_all
  moreover have "(2::real) ^ 1024 = 2 ^ 54 * 2 ^ 970" by (simp flip: power_add)
  moreover have "(2::real) ^ 969 \<le> 2 ^ 970" by (rule power_increasing) simp_all
  moreover have "(1::real) * 2 ^ 970 \<le> (2 ^ 54 - 1) * 2 ^ 970"
    by (rule mult_right_mono) simp_all
  ultimately show ?thesis unfolding threshold_def by (simp add: algebra_simps)
qed

lemma threshold_gt_1023: "2 ^ 1023 < threshold"
proof -
  have "(2::real) ^ 1024 = 2 * 2 ^ 1023" by simp
  moreover have "(2::real) ^ 970 < 2 ^ 1023" by (rule power_strict_increasing) simp_all
  ultimately show ?thesis unfolding threshold_def by linarith
qed

lemma fround_big: "2 ^ 1024 \<le> r \<Longrightarrow> fround s r = Double s 2047 0"
proof -
  assume a: "2 ^ 1024 \<le> r"
  have "threshold \<le> 2 ^ 1024" unfolding threshold_def by simp
  with a have "threshold \<le> r" by linarith
  moreover have "r \<noteq> 0" using a by (smt (verit) zero_less_power)
  ultimately show ?thesis by (simp add: fround_def)
qed

lemma fround_mid:
  "18446744073709551616 \<le> r \<Longrightarrow> r < 2 ^ 1023 \<Longrightarrow>
   fround s r = round_at s r (max (ilog2 r) (- 1022))"
  using threshold_gt_1023 by (simp add: fround_def)

lemma fround_small:
  "0 < r \<Longrightarrow> r < 18446744073709551616 \<Longrightarrow>
   fround s r = round_at s r (max (ilog2 r) (- 1022))"
  using threshold_gt by (simp add: fround_def)

lemmas arith_ev = pow2_def mantissa_def exponent_def valof_def ilog2_def round_half_even_def
  tie_to_even_def encode_def round_at_def fround_zero fround_small is_nan_def is_infinity_def
  is_finite_def is_zero_def dNaN_def fneg_def fadd_def fsub_def fmul_def fdiv_def
  double_of_real_def compute_bitlen

lemma lits: "lit_0_0 = Double False 0 0" "lit_6_0 = Double False 1025 2251799813685248"
  by (simp_all add: lit_0_0_def lit_6_0_def arith_ev)

lemma small_ints:
  "double_of_real 0 = Double False 0 0"
  "double_of_real 1 = Double False 1023 0"
  "double_of_real 2 = Double False 1024 0"
  "double_of_real 3 = Double False 1024 2251799813685248"
  "double_of_real 4 = Double False 1025 0"
  by (simp_all add: arith_ev)

lemmas spec_ev = vx_def vy_def vz_def vsub_def cross_x_def cross_y_def cross_z_def
  scalar_triple_product_def tetrahedronVolume_def polyhedronVolume_def lits small_ints


text \<open>
  The rounding on constants whose doubles are known: \<open>0.1\<close> is \<open>0x3FB999999999999A\<close>,
  \<open>0.7\<close> is \<open>0x3FE6666666666666\<close>, \<open>1/6.0\<close> is \<open>0x3FC5555555555555\<close>;
  \<open>2^53 + 1\<close> lies halfway between two doubles and goes to the even one below,
  \<open>2^53 + 3\<close> to the even one above.
\<close>

lemma rounding_checks:
  "double_of_real (1 / 10) = Double False 1019 0x999999999999A"
  "double_of_real (7 / 10) = Double False 1022 0x6666666666666"
  "fdiv (double_of_real 1) lit_6_0 = Double False 1020 0x5555555555555"
  "double_of_real (2 ^ 53 + 1) = Double False 1076 0"
  "double_of_real (2 ^ 53 + 3) = Double False 1076 2"
  "double_of_real (- 3 / 2) = Double True 1023 0x8000000000000"
  by (simp_all add: arith_ev lits)

section \<open>Signs, zeros and NaNs through the operations\<close>

lemma zero_class: "is_zero x \<Longrightarrow> \<not> is_nan x \<and> \<not> is_infinity x \<and> is_finite x"
  by (simp add: is_zero_def is_nan_def is_infinity_def is_finite_def)

lemma finite_class: "is_finite x \<Longrightarrow> \<not> is_nan x \<and> \<not> is_infinity x"
  by (simp add: is_nan_def is_infinity_def is_finite_def)

lemma valof_zero: "is_zero x \<Longrightarrow> valof x = 0"
  by (simp add: is_zero_def valof_def mantissa_def)

lemma is_zero_Double [simp]: "is_zero (Double s 0 0)"
  by (simp add: is_zero_def)

lemma is_nan_dNaN [simp]: "is_nan dNaN"
  by (simp add: is_nan_def dNaN_def)

lemma fneg_class [simp]:
  "is_nan (fneg x) = is_nan x" "is_infinity (fneg x) = is_infinity x"
  "is_zero (fneg x) = is_zero x" "is_finite (fneg x) = is_finite x"
  "sign_bit (fneg x) = (\<not> sign_bit x)" "fneg (fneg x) = x"
  by (simp_all add: fneg_def is_nan_def is_infinity_def is_zero_def is_finite_def)

lemma fneg_fields [simp]: "mantissa (fneg x) = mantissa x" "exponent (fneg x) = exponent x"
  by (simp_all add: fneg_def mantissa_def exponent_def)

lemma valof_fneg [simp]: "valof (fneg x) = - valof x"
  by (simp add: valof_def)

lemma fneg_fround: "fneg (fround s r) = fround (\<not> s) r"
  by (simp add: fround_def round_at_def encode_def fneg_def)

lemma fadd_finite:
  "is_finite x \<Longrightarrow> is_finite y \<Longrightarrow>
   fadd x y = (if valof x + valof y = 0 then Double (sign_bit x \<and> sign_bit y) 0 0
               else fround (valof x + valof y < 0) \<bar>valof x + valof y\<bar>)"
  by (simp add: fadd_def finite_class)

lemma fmul_zero_left:
  "is_zero x \<Longrightarrow> fmul x y = (if is_nan y \<or> is_infinity y then dNaN
                              else Double (sign_bit x \<noteq> sign_bit y) 0 0)"
  by (simp add: fmul_def zero_class valof_zero fround_def)

lemma fmul_zero_right:
  "is_zero y \<Longrightarrow> fmul x y = (if is_nan x \<or> is_infinity x then dNaN
                              else Double (sign_bit x \<noteq> sign_bit y) 0 0)"
  by (simp add: fmul_def zero_class valof_zero fround_def)

lemma fadd_zero_left:
  "is_zero x \<Longrightarrow> fadd x y =
     (if is_nan y then dNaN else if is_infinity y then y
      else if valof y = 0 then Double (sign_bit x \<and> sign_bit y) 0 0
      else fround (valof y < 0) \<bar>valof y\<bar>)"
  by (simp add: fadd_def zero_class valof_zero)

lemma fadd_zero_right:
  "is_zero y \<Longrightarrow> fadd x y =
     (if is_nan x then dNaN else if is_infinity x then x
      else if valof x = 0 then Double (sign_bit x \<and> sign_bit y) 0 0
      else fround (valof x < 0) \<bar>valof x\<bar>)"
  by (auto simp add: fadd_def zero_class valof_zero)


subsection \<open>Operands that differ in the sign of a zero\<close>

lemma same_number_fmul:
  "same_number a a' \<Longrightarrow> same_number b b' \<Longrightarrow> same_number (fmul a b) (fmul a' b')"
  unfolding same_number_def
  by (auto simp: fmul_zero_left fmul_zero_right zero_class)

lemma same_number_fadd:
  "same_number a a' \<Longrightarrow> same_number b b' \<Longrightarrow> same_number (fadd a b) (fadd a' b')"
  unfolding same_number_def
  by (auto simp: fadd_zero_left fadd_zero_right zero_class valof_zero)

lemma same_number_fneg: "same_number b b' \<Longrightarrow> same_number (fneg b) (fneg b')"
  unfolding same_number_def by auto

lemma same_number_fsub:
  "same_number a a' \<Longrightarrow> same_number b b' \<Longrightarrow> same_number (fsub a b) (fsub a' b')"
  unfolding fsub_def by (intro same_number_fadd same_number_fneg)

lemma six_class: "\<not> is_nan lit_6_0" "\<not> is_infinity lit_6_0" "\<not> is_zero lit_6_0"
  by (simp_all add: lits is_nan_def is_infinity_def is_zero_def)

lemma fdiv_zero_six: "is_zero x \<Longrightarrow> fdiv x lit_6_0 = Double (sign_bit x \<noteq> sign_bit lit_6_0) 0 0"
  by (simp add: fdiv_def six_class zero_class valof_zero fround_def)

lemma same_number_fdiv_six:
  "same_number a a' \<Longrightarrow> same_number (fdiv a lit_6_0) (fdiv a' lit_6_0)"
  unfolding same_number_def by (auto simp: fdiv_zero_six)


lemma fsub_translated:
  assumes "exact_add x t" "exact_add y t"
  shows "same_number (fsub (fadd x t) (fadd y t)) (fsub x y)"
proof -
  from assms have fin: "is_finite x" "is_finite y" "is_finite (fadd x t)" "is_finite (fadd y t)"
    and val: "valof (fadd x t) = valof x + valof t" "valof (fadd y t) = valof y + valof t"
    by (simp_all add: exact_add_def)
  have "fsub (fadd x t) (fadd y t) =
        (if valof x - valof y = 0 then Double (sign_bit (fadd x t) \<and> \<not> sign_bit (fadd y t)) 0 0
         else fround (valof x - valof y < 0) \<bar>valof x - valof y\<bar>)"
    unfolding fsub_def by (subst fadd_finite) (simp_all add: fin val)
  moreover have "fsub x y =
        (if valof x - valof y = 0 then Double (sign_bit x \<and> \<not> sign_bit y) 0 0
         else fround (valof x - valof y < 0) \<bar>valof x - valof y\<bar>)"
    unfolding fsub_def by (subst fadd_finite) (simp_all add: fin)
  ultimately show ?thesis
    by (simp add: same_number_def)
qed

lemma vsub_translated:
  assumes "exact_translation p t" "exact_translation q t"
  shows "same_number (vx (vsub (translate p t) (translate q t))) (vx (vsub p q))"
    and "same_number (vy (vsub (translate p t) (translate q t))) (vy (vsub p q))"
    and "same_number (vz (vsub (translate p t) (translate q t))) (vz (vsub p q))"
  using assms
  by (simp_all add: exact_translation_def vsub_def translate_def vx_def vy_def vz_def
      fsub_translated)

lemma same_number_triple:
  assumes "same_number (vx a) (vx a')" "same_number (vy a) (vy a')" "same_number (vz a) (vz a')"
    and "same_number (vx b) (vx b')" "same_number (vy b) (vy b')" "same_number (vz b) (vz b')"
    and "same_number (vx c) (vx c')" "same_number (vy c) (vy c')" "same_number (vz c) (vz c')"
  shows "same_number (scalar_triple_product a b c) (scalar_triple_product a' b' c')"
  unfolding scalar_triple_product_def cross_x_def cross_y_def cross_z_def
  by (intro same_number_fadd same_number_fmul same_number_fsub assms)

lemma tetrahedronVolume_translated:
  assumes "exact_translation p0 t" "exact_translation p1 t"
    "exact_translation p2 t" "exact_translation p3 t"
  shows "same_number
           (tetrahedronVolume (translate p0 t) (translate p1 t) (translate p2 t) (translate p3 t))
           (tetrahedronVolume p0 p1 p2 p3)"
  unfolding tetrahedronVolume_def
  by (intro same_number_fdiv_six same_number_triple vsub_translated assms)


subsection \<open>Operands of opposite sign\<close>

lemma fmul_commute: "fmul x y = fmul y x"
proof -
  have "(sign_bit x \<noteq> sign_bit y) = (sign_bit y \<noteq> sign_bit x)" by auto
  moreover have "\<bar>valof x\<bar> * \<bar>valof y\<bar> = \<bar>valof y\<bar> * \<bar>valof x\<bar>" by simp
  moreover have "(is_nan x \<or> is_nan y) = (is_nan y \<or> is_nan x)"
    "(is_infinity x \<or> is_infinity y) = (is_infinity y \<or> is_infinity x)"
    "(is_zero x \<or> is_zero y) = (is_zero y \<or> is_zero x)" by auto
  ultimately show ?thesis unfolding fmul_def by presburger
qed

lemma infinity_cases: "is_infinity x \<Longrightarrow> x = Double (sign_bit x) 2047 0"
  by (cases x) (simp add: is_infinity_def)

lemma opposite_fsub: "opposite (fsub y x) (fsub x y)"
proof (cases "is_nan x \<or> is_nan y")
  case True
  then show ?thesis by (auto simp: fsub_def fadd_def opposite_def)
next
  case nn: False
  show ?thesis
  proof (cases "is_infinity x \<or> is_infinity y")
    case True
    then show ?thesis using nn
      by (cases x; cases y)
        (auto simp: fsub_def fadd_def opposite_def is_infinity_def fneg_def is_nan_def
          dNaN_def is_zero_def)
  next
    case False
    with nn have fin: "is_finite x" "is_finite y"
      by (auto simp: is_finite_def is_nan_def is_infinity_def)
    have "fneg (fround (valof x - valof y < 0) \<bar>valof x - valof y\<bar>) =
          fround (valof y - valof x < 0) \<bar>valof y - valof x\<bar>" if "valof x \<noteq> valof y"
    proof -
      from that have "(valof y - valof x < 0) = (\<not> valof x - valof y < 0)" by auto
      moreover have "\<bar>valof y - valof x\<bar> = \<bar>valof x - valof y\<bar>" by simp
      ultimately show ?thesis by (simp only: fneg_fround)
    qed
    then show ?thesis
      using fin by (auto simp: fsub_def fadd_finite opposite_def)
  qed
qed


lemma opposite_nan: "is_nan x \<Longrightarrow> is_nan y \<Longrightarrow> opposite x y"
  by (simp add: opposite_def)

lemma opposite_zero: "is_zero x \<Longrightarrow> is_zero y \<Longrightarrow> opposite x y"
  by (simp add: opposite_def)

lemma opposite_fneg: "opposite (fneg x) x"
  by (simp add: opposite_def)

lemma fmul_nan: "is_nan x \<or> is_nan y \<Longrightarrow> fmul x y = dNaN"
  by (simp add: fmul_def)

lemma fadd_nan: "is_nan x \<or> is_nan y \<Longrightarrow> fadd x y = dNaN"
  by (simp add: fadd_def)

lemma fdiv_nan: "is_nan x \<or> is_nan y \<Longrightarrow> fdiv x y = dNaN"
  by (simp add: fdiv_def)

lemma fmul_fneg_right: "\<not> is_nan (fmul x y) \<Longrightarrow> fmul x (fneg y) = fneg (fmul x y)"
  by (auto simp: fmul_def fneg_fround split: if_splits) (simp_all add: fneg_def)

lemma opposite_fmul:
  assumes "opposite w' w"
  shows "opposite (fmul a w') (fmul a w)"
proof -
  consider "is_nan w'" "is_nan w" | "is_zero w'" "is_zero w" | "w' = fneg w"
    using assms by (auto simp: opposite_def)
  then show ?thesis
  proof cases
    case 1
    then show ?thesis by (simp add: fmul_nan opposite_nan)
  next
    case 2
    then show ?thesis by (auto simp: fmul_zero_right intro: opposite_nan opposite_zero)
  next
    case 3
    show ?thesis
    proof (cases "is_nan (fmul a w)")
      case True
      then have "is_nan (fmul a w')"
        unfolding 3 by (auto simp: fmul_def split: if_splits)
          (simp_all add: is_nan_def is_infinity_def is_zero_def fround_def round_at_def encode_def split: if_splits)
      with True show ?thesis by (rule opposite_nan[rotated])
    next
      case False
      then show ?thesis unfolding 3 by (simp add: fmul_fneg_right opposite_fneg)
    qed
  qed
qed


lemma opposite_fadd_fneg: "opposite (fadd (fneg x) (fneg y)) (fadd x y)"
proof (cases "is_nan x \<or> is_nan y")
  case True
  then show ?thesis by (simp add: fadd_nan opposite_nan)
next
  case nn: False
  show ?thesis
  proof (cases "is_infinity x \<or> is_infinity y")
    case True
    then show ?thesis using nn
      by (auto simp: fadd_def opposite_def split: if_splits)
  next
    case False
    with nn have fin: "is_finite x" "is_finite y"
      by (auto simp: is_finite_def is_nan_def is_infinity_def)
    show ?thesis
    proof (cases "valof x + valof y = 0")
      case True
      then have "- valof x - valof y = 0" by simp
      with True show ?thesis using fin by (simp add: fadd_finite opposite_zero)
    next
      case False
      then have "(- valof x - valof y < 0) = (\<not> valof x + valof y < 0)" by auto
      moreover have "\<bar>- valof x - valof y\<bar> = \<bar>valof x + valof y\<bar>" by simp
      ultimately have "fneg (fround (valof x + valof y < 0) \<bar>valof x + valof y\<bar>) =
          fround (- valof x - valof y < 0) \<bar>- valof x - valof y\<bar>"
        by (simp only: fneg_fround)
      moreover from False have "- valof x - valof y \<noteq> 0" by simp
      ultimately show ?thesis using fin False by (simp add: fadd_finite opposite_def)
    qed
  qed
qed

lemma opposite_fadd:
  assumes "opposite x' x" "opposite y' y"
  shows "opposite (fadd x' y') (fadd x y)"
proof -
  consider "is_nan x'" "is_nan x" | "is_nan y'" "is_nan y"
    | "is_zero x'" "is_zero x" "is_zero y'" "is_zero y"
    | "is_zero x'" "is_zero x" "y' = fneg y"
    | "x' = fneg x" "is_zero y'" "is_zero y"
    | "x' = fneg x" "y' = fneg y"
    using assms by (auto simp: opposite_def)
  then show ?thesis
  proof cases
    case 1
    then show ?thesis by (simp add: fadd_nan opposite_nan)
  next
    case 2
    then show ?thesis by (simp add: fadd_nan opposite_nan)
  next
    case 3
    then show ?thesis by (simp add: fadd_zero_left valof_zero zero_class opposite_zero)
  next
    case 4
    have "fadd x' y' = fadd (fneg x) (fneg y) \<or> is_zero (fadd x' y') \<and> is_zero (fadd x y)"
      using 4 by (auto simp: fadd_zero_left)
    then show ?thesis
      using opposite_fadd_fneg[of x y] by (auto intro: opposite_zero)
  next
    case 5
    have "fadd x' y' = fadd (fneg x) (fneg y) \<or> is_zero (fadd x' y') \<and> is_zero (fadd x y)"
      using 5 by (auto simp: fadd_zero_right)
    then show ?thesis
      using opposite_fadd_fneg[of x y] by (auto intro: opposite_zero)
  next
    case 6
    then show ?thesis by (simp add: opposite_fadd_fneg)
  qed
qed

lemma opposite_fdiv_six:
  assumes "opposite x' x"
  shows "opposite (fdiv x' lit_6_0) (fdiv x lit_6_0)"
proof -
  consider "is_nan x'" "is_nan x" | "is_zero x'" "is_zero x" | "x' = fneg x"
    using assms by (auto simp: opposite_def)
  then show ?thesis
  proof cases
    case 1
    then show ?thesis by (simp add: fdiv_nan opposite_nan)
  next
    case 2
    then show ?thesis by (simp add: fdiv_zero_six opposite_zero)
  next
    case 3
    show ?thesis
    proof (cases "is_nan x")
      case True
      then show ?thesis unfolding 3 by (simp add: fdiv_nan opposite_nan)
    next
      case False
      then have "fdiv (fneg x) lit_6_0 = fneg (fdiv x lit_6_0)"
        by (auto simp: fdiv_def six_class fneg_fround) (simp_all add: fneg_def)
      then show ?thesis unfolding 3 by (simp add: opposite_fneg)
    qed
  qed
qed


lemma opposite_cross:
  "opposite (cross_x c b) (cross_x b c)"
  "opposite (cross_y c b) (cross_y b c)"
  "opposite (cross_z c b) (cross_z b c)"
  unfolding cross_x_def cross_y_def cross_z_def
  by (simp_all add: fmul_commute[of "vy c"] fmul_commute[of "vz c"] fmul_commute[of "vx c"]
      opposite_fsub)

lemma opposite_triple: "opposite (scalar_triple_product a c b) (scalar_triple_product a b c)"
  unfolding scalar_triple_product_def
  by (intro opposite_fadd opposite_fmul opposite_cross)

lemma opposite_tetrahedronVolume:
  "opposite (tetrahedronVolume p0 p2 p1 p3) (tetrahedronVolume p0 p1 p2 p3)"
  unfolding tetrahedronVolume_def by (intro opposite_fdiv_six opposite_triple)

lemma opposite_exact: "opposite v' v \<Longrightarrow> \<not> is_zero v \<Longrightarrow> \<not> is_nan v \<Longrightarrow> v' = fneg v"
  by (auto simp: opposite_def)


subsection \<open>Zero operands\<close>

lemma fsub_self: "is_finite (fsub x x) \<Longrightarrow> is_zero (fsub x x)"
proof (cases "is_finite x")
  case True
  then show ?thesis by (simp add: fsub_def fadd_finite)
next
  case False
  then have "fsub x x = dNaN"
    by (auto simp: fsub_def fadd_def is_finite_def is_nan_def is_infinity_def fneg_def)
  moreover assume "is_finite (fsub x x)"
  ultimately show ?thesis by (simp add: is_finite_def dNaN_def)
qed

lemma vsub_self: "finite_vec (vsub p p) \<Longrightarrow> zero_vec (vsub p p)"
  by (simp add: finite_vec_def zero_vec_def vsub_def vx_def vy_def vz_def fsub_self)

lemma is_zero_fmul_left: "is_zero x \<Longrightarrow> is_finite y \<Longrightarrow> is_zero (fmul x y)"
  by (simp add: fmul_zero_left finite_class)

lemma is_zero_fmul_right: "is_finite x \<Longrightarrow> is_zero y \<Longrightarrow> is_zero (fmul x y)"
  by (simp add: fmul_zero_right finite_class)

lemma is_zero_fadd: "is_zero x \<Longrightarrow> is_zero y \<Longrightarrow> is_zero (fadd x y)"
  by (simp add: fadd_zero_left zero_class valof_zero)

lemma is_zero_fsub: "is_zero x \<Longrightarrow> is_zero y \<Longrightarrow> is_zero (fsub x y)"
  by (simp add: fsub_def is_zero_fadd)

lemma is_zero_fdiv_six: "is_zero x \<Longrightarrow> is_zero (fdiv x lit_6_0)"
  by (simp add: fdiv_zero_six)

lemma triple_zero_a:
  assumes "zero_vec a" "is_finite (cross_x b c)" "is_finite (cross_y b c)" "is_finite (cross_z b c)"
  shows "is_zero (scalar_triple_product a b c)"
  using assms unfolding scalar_triple_product_def zero_vec_def
  by (intro is_zero_fadd is_zero_fmul_left) simp_all

lemma triple_zero_b:
  assumes "finite_vec a" "zero_vec b" "finite_vec c"
  shows "is_zero (scalar_triple_product a b c)"
  using assms unfolding scalar_triple_product_def zero_vec_def finite_vec_def
    cross_x_def cross_y_def cross_z_def
  by (intro is_zero_fadd is_zero_fmul_right is_zero_fsub is_zero_fmul_left) simp_all

lemma triple_zero_c:
  assumes "finite_vec a" "finite_vec b" "zero_vec c"
  shows "is_zero (scalar_triple_product a b c)"
  using assms unfolding scalar_triple_product_def zero_vec_def finite_vec_def
    cross_x_def cross_y_def cross_z_def
  by (intro is_zero_fadd is_zero_fmul_right is_zero_fsub) simp_all


lemma zero_tetrahedronVolume:
  assumes "p0 = p3 \<or> p1 = p3 \<or> p2 = p3" and "no_overflow p0 p1 p2 p3"
  shows "is_zero (tetrahedronVolume p0 p1 p2 p3)"
proof -
  have "is_zero (scalar_triple_product (vsub p0 p3) (vsub p1 p3) (vsub p2 p3))"
    using assms unfolding no_overflow_def
    by (auto intro: triple_zero_a triple_zero_b triple_zero_c vsub_self)
  then show ?thesis
    by (simp add: tetrahedronVolume_def is_zero_fdiv_six)
qed

text \<open>
  One turn of the loop of \<open>calculate_volume\<close> on a face that holds index 0: the buffer
  it fills holds \<open>vectors[0]\<close> twice, and the value added to the running volume is a
  zero.
\<close>

lemma zero_face_step:
  assumes ok: "face_ok vectors vector_indices f" and lt: "f < num_trfaces"
    and zero: "vector_indices ! nat (3 * f) = 0 \<or> vector_indices ! nat (3 * f + 1) = 0 \<or>
               vector_indices ! nat (3 * f + 2) = 0"
    and fin: "no_overflow (vectors ! nat (vector_indices ! nat (3 * f)))
                (vectors ! nat (vector_indices ! nat (3 * f + 1)))
                (vectors ! nat (vector_indices ! nat (3 * f + 2))) (vectors ! 0)"
  shows "\<exists>t v. fill_tetrahedron vectors vector_indices f = Inr t \<and>
            tetrahedron_volume t = Inr v \<and> is_zero v \<and>
            face_loop vectors num_trfaces vector_indices f volume =
            face_loop vectors num_trfaces vector_indices (f + 1) (fadd volume v)"
proof -
  let ?t = "[vectors ! nat (vector_indices ! nat (3 * f)),
             vectors ! nat (vector_indices ! nat (3 * f + 1)),
             vectors ! nat (vector_indices ! nat (3 * f + 2)), vectors ! 0]"
  let ?v = "tetrahedronVolume (vectors ! nat (vector_indices ! nat (3 * f)))
              (vectors ! nat (vector_indices ! nat (3 * f + 1)))
              (vectors ! nat (vector_indices ! nat (3 * f + 2))) (vectors ! 0)"
  have t: "fill_tetrahedron vectors vector_indices f = Inr ?t"
    by (rule fill_tetrahedron_ok[OF ok])
  have v: "tetrahedron_volume ?t = Inr ?v"
    by (rule tetrahedron_volume_points)
  from zero have "vectors ! nat (vector_indices ! nat (3 * f)) = vectors ! 0 \<or>
      vectors ! nat (vector_indices ! nat (3 * f + 1)) = vectors ! 0 \<or>
      vectors ! nat (vector_indices ! nat (3 * f + 2)) = vectors ! 0"
    by auto
  then have z: "is_zero ?v"
    using fin by (rule zero_tetrahedronVolume)
  have "face_loop vectors num_trfaces vector_indices f volume =
        face_loop vectors num_trfaces vector_indices (f + 1) (fadd volume ?v)"
    using lt by (subst face_loop.simps) (simp add: t v)
  with t v z show ?thesis by blast
qed

section \<open>The rounding is to nearest\<close>

text \<open>
  Three facts that tie \<open>fround\<close> to the format: \<open>ilog2\<close> is the binade of its
  argument; below the overflow threshold \<open>fround\<close> returns a finite double within half
  a spacing of the real it rounds; and a finite double is the rounding of its own value, so
  that the encoding and \<open>valof\<close> agree.
\<close>

lemma pow2_pos: "0 < pow2 k"
  by (simp add: pow2_def)

lemma pow2_powi: "pow2 k = 2 powi k"
  unfolding pow2_def power_int_def
  by (simp add: inverse_eq_divide power_one_over)

lemma pow2_add: "pow2 (a + b) = pow2 a * pow2 b"
  unfolding pow2_powi by (rule power_int_add) simp

lemma pow2_nat: "0 \<le> k \<Longrightarrow> pow2 k = 2 ^ nat k"
  by (simp add: pow2_def)

lemma pow2_ge_1: "0 \<le> k \<Longrightarrow> 1 \<le> pow2 k"
  by (simp add: pow2_def)

lemma pow2_mono: "a \<le> b \<Longrightarrow> pow2 a \<le> pow2 b"
proof -
  assume ab: "a \<le> b"
  have "pow2 b = pow2 a * pow2 (b - a)" using pow2_add[of a "b - a"] by simp
  moreover have "1 \<le> pow2 (b - a)" using ab by (intro pow2_ge_1) simp
  ultimately show ?thesis using pow2_pos[of a] by simp
qed

lemma round_half_even_bounds_lo: "r - 1 / 2 \<le> of_int (round_half_even r)"
  unfolding round_half_even_def tie_to_even_def
  by (simp; linarith)

lemma round_half_even_bounds_hi: "of_int (round_half_even r) \<le> r + 1 / 2"
  unfolding round_half_even_def tie_to_even_def
  by (simp; linarith)

lemma round_half_even_int: "round_half_even (of_int n) = n"
  by (simp add: round_half_even_def tie_to_even_def)

lemma bitlen_lo: "0 < n \<Longrightarrow> (2::real) ^ nat (bitlen n - 1) \<le> of_int n"
proof -
  assume "0 < n"
  from bitlen_bounds[OF this] have "2 ^ nat (bitlen n - 1) \<le> n" by simp
  then have "real_of_int (2 ^ nat (bitlen n - 1)) \<le> real_of_int n" by (rule of_int_le_iff[THEN iffD2])
  then show ?thesis by simp
qed

lemma bitlen_hi: "0 < n \<Longrightarrow> real_of_int n + 1 \<le> 2 ^ nat (bitlen n)"
proof -
  assume "0 < n"
  from bitlen_bounds[OF this] have "n + 1 \<le> 2 ^ nat (bitlen n)" by simp
  then have "real_of_int (n + 1) \<le> real_of_int (2 ^ nat (bitlen n))" by (rule of_int_le_iff[THEN iffD2])
  then show ?thesis by simp
qed

lemma bitlen_ge_1: "0 < n \<Longrightarrow> 1 \<le> bitlen n"
  by (simp add: bitlen_alt_def)

lemma ilog2_bounds:
  assumes "0 < r"
  shows "pow2 (ilog2 r) \<le> r \<and> r < pow2 (ilog2 r + 1)"
proof (cases "1 \<le> r")
  case True
  let ?n = "\<lfloor>r\<rfloor>"
  from True have n: "0 < ?n" by simp
  have "of_int ?n \<le> r" by simp
  with bitlen_lo[OF n] have lo: "2 ^ nat (bitlen ?n - 1) \<le> r" by linarith
  have "r < of_int ?n + 1" by linarith
  with bitlen_hi[OF n] have hi: "r < 2 ^ nat (bitlen ?n)" by linarith
  have e: "nat (bitlen ?n - 1 + 1) = nat (bitlen ?n)" by simp
  show ?thesis
    using True lo hi bitlen_ge_1[OF n] by (simp add: ilog2_def pow2_nat)
next
  case False
  let ?c = "\<lceil>1 / r\<rceil>"
  let ?b = "bitlen (?c - 1)"
  from False assms have y: "1 < 1 / r" by simp
  then have c: "0 < ?c - 1" by linarith
  have bl: "1 \<le> ?b" using c by (rule bitlen_ge_1)
  have "real_of_int (?c - 1) < 1 / r" by linarith
  with bitlen_lo[OF c] have lo: "2 ^ nat (?b - 1) < 1 / r" by linarith
  have "1 / r \<le> real_of_int (?c - 1) + 1" by simp
  with bitlen_hi[OF c] have hi: "1 / r \<le> 2 ^ nat ?b" by linarith
  have p1: "pow2 (- ?b) = 1 / 2 ^ nat ?b" using bl by (simp add: pow2_def)
  have p2: "pow2 (- ?b + 1) = 1 / 2 ^ nat (?b - 1)"
  proof (cases "?b = 1")
    case True
    then show ?thesis by (simp add: pow2_def)
  next
    case False
    with bl have "\<not> 0 \<le> - ?b + 1" by linarith
    moreover have "nat (- (- ?b + 1)) = nat (?b - 1)" by simp
    ultimately show ?thesis unfolding pow2_def by (simp only: if_False)
  qed
  have "1 / 2 ^ nat ?b \<le> r"
    using hi assms by (simp add: field_simps)
  moreover have "r < 1 / 2 ^ nat (?b - 1)"
    using lo assms by (simp add: field_simps)
  ultimately show ?thesis using False p1 p2 by (simp add: ilog2_def)
qed

lemma uint_exp [simp]: "uint (word_of_int k :: 11 word) = k" if "0 \<le> k" "k < 2048"
  using that by (simp add: uint_word_of_int_eq take_bit_int_eq_self)

lemma uint_frac [simp]: "uint (word_of_int k :: 52 word) = k" if "0 \<le> k" "k < 4503599627370496"
  using that by (simp add: uint_word_of_int_eq take_bit_int_eq_self)

lemma exp_zero_iff: "(word_of_int k :: 11 word) = 0 \<longleftrightarrow> k = 0" if "0 \<le> k" "k < 2048"
proof
  assume "(word_of_int k :: 11 word) = 0"
  then have "uint (word_of_int k :: 11 word) = 0" by simp
  then show "k = 0" using that by simp
qed simp

lemma exp_max_iff: "(word_of_int k :: 11 word) = 2047 \<longleftrightarrow> k = 2047" if "0 \<le> k" "k < 2048"
proof
  assume "(word_of_int k :: 11 word) = 2047"
  then have "uint (word_of_int k :: 11 word) = uint (2047 :: 11 word)" by simp
  then show "k = 2047" using that by simp
qed simp

lemma divmod_split:
  fixes a c f :: int
  assumes "0 \<le> f" "f < c"
  shows "(a * c + f) div c = a" and "(a * c + f) mod c = f"
  using assms by (simp_all add: div_pos_pos_trivial mod_pos_pos_trivial)

lemma fields_of_int:
  assumes "0 \<le> E" "E < 2047" "0 \<le> F" "F < 2 ^ 52"
  shows "is_finite (Double s (word_of_int E) (word_of_int F))"
    and "mantissa (Double s (word_of_int E) (word_of_int F)) = (if E = 0 then F else 2 ^ 52 + F)"
    and "exponent (Double s (word_of_int E) (word_of_int F)) = (if E = 0 then - 1074 else E - 1075)"
proof -
  have E: "uint (word_of_int E :: 11 word) = E" using assms by simp
  have F: "uint (word_of_int F :: 52 word) = F" using assms by simp
  have z: "(word_of_int E :: 11 word) = 0 \<longleftrightarrow> E = 0" using assms by (simp add: exp_zero_iff)
  have t: "(word_of_int E :: 11 word) \<noteq> 2047" using assms by (simp add: exp_max_iff)
  show "is_finite (Double s (word_of_int E) (word_of_int F))"
    using t by (simp add: is_finite_def)
  show "mantissa (Double s (word_of_int E) (word_of_int F)) = (if E = 0 then F else 2 ^ 52 + F)"
    unfolding mantissa_def double.sel z F by simp
  show "exponent (Double s (word_of_int E) (word_of_int F)) = (if E = 0 then - 1074 else E - 1075)"
    unfolding exponent_def double.sel z E by simp
qed

lemma valof_fields:
  assumes "0 \<le> E" "E < 2047" "0 \<le> F" "F < 2 ^ 52"
  shows "valof (Double s (word_of_int E) (word_of_int F)) =
         (if s then - 1 else 1) * of_int (if E = 0 then F else 2 ^ 52 + F) *
         pow2 (if E = 0 then - 1074 else E - 1075)"
  unfolding valof_def fields_of_int(2,3)[OF assms] by simp

lemma valof_encode:
  assumes e: "- 1022 \<le> e" and m: "0 \<le> m" "m \<le> 2 ^ 53"
    and nrm: "e = - 1022 \<or> 2 ^ 52 \<le> m"
    and top: "(e + 1022) * 2 ^ 52 + m < 2047 * 2 ^ 52"
  shows "is_finite (encode s ((e + 1022) * 2 ^ 52 + m))"
    and "valof (encode s ((e + 1022) * 2 ^ 52 + m)) =
         (if s then - 1 else 1) * of_int m * pow2 (e - 52)"
proof -
  let ?bits = "(e + 1022) * 2 ^ 52 + m"
  let ?E = "?bits div 2 ^ 52" and ?F = "?bits mod 2 ^ 52"
  have bits0: "0 \<le> ?bits" using e m by simp
  have E: "0 \<le> ?E" "?E < 2047"
    using bits0 top by simp_all
  have F: "0 \<le> ?F" "?F < 2 ^ 52" by simp_all
  show fin: "is_finite (encode s ?bits)"
    unfolding encode_def by (rule fields_of_int(1)[OF E F])
  have v: "valof (encode s ?bits) =
         (if s then - 1 else 1) * of_int (if ?E = 0 then ?F else 2 ^ 52 + ?F) *
         pow2 (if ?E = 0 then - 1074 else ?E - 1075)"
    unfolding encode_def by (rule valof_fields[OF E F])
  consider (sub) "m < 2 ^ 52" "e = - 1022" | (nor) "2 ^ 52 \<le> m" "m < 2 ^ 53" | (car) "m = 2 ^ 53"
    using nrm m by fastforce
  then show "valof (encode s ?bits) = (if s then - 1 else 1) * of_int m * pow2 (e - 52)"
  proof cases
    case sub
    have eq: "?bits = 0 * 2 ^ 52 + m" using sub by simp
    have "?E = 0" "?F = m"
      unfolding eq using sub m by (intro divmod_split; simp)+
    then show ?thesis unfolding v using sub by simp
  next
    case nor
    have eq: "?bits = (e + 1023) * 2 ^ 52 + (m - 2 ^ 52)" by (simp add: algebra_simps)
    have EF: "?E = e + 1023" "?F = m - 2 ^ 52"
      unfolding eq using nor by (intro divmod_split; simp)+
    have "e + 1023 \<noteq> 0" using e by simp
    then show ?thesis unfolding v EF by simp
  next
    case car
    have eq: "?bits = (e + 1024) * 2 ^ 52 + 0" using car by (simp add: algebra_simps)
    have EF: "?E = e + 1024" "?F = 0"
      unfolding eq by (intro divmod_split; simp)+
    have "pow2 1 = 2" by (simp add: pow2_def)
    then have "pow2 (e - 51) = pow2 (e - 52) * 2" using pow2_add[of "e - 52" 1] by simp
    moreover have "e + 1024 \<noteq> 0" using e by simp
    moreover have "e + 1024 - 1075 = e - 51" by simp
    ultimately have "valof (encode s ?bits) = (if s then - 1 else 1) * of_int (2 ^ 53) * pow2 (e - 52)"
      unfolding v EF by simp
    then show ?thesis unfolding car .
  qed
qed

lemma pow2_strict: "a < b \<Longrightarrow> pow2 a < pow2 b"
proof -
  assume ab: "a < b"
  have "pow2 b = pow2 a * pow2 (b - a)" using pow2_add[of a "b - a"] by simp
  moreover have "1 < pow2 (b - a)" using ab by (simp add: pow2_nat)
  ultimately show ?thesis using pow2_pos[of a] by simp
qed

lemma ilog2_unique:
  assumes "0 < r" "pow2 a \<le> r" "r < pow2 (a + 1)"
  shows "ilog2 r = a"
proof (rule ccontr)
  assume ne: "ilog2 r \<noteq> a"
  from ilog2_bounds[OF assms(1)] have b: "pow2 (ilog2 r) \<le> r" "r < pow2 (ilog2 r + 1)" by simp_all
  show False
  proof (cases "ilog2 r < a")
    case True
    then have "pow2 (ilog2 r + 1) \<le> pow2 a" by (intro pow2_mono) simp
    with b assms show False by linarith
  next
    case False
    with ne have "pow2 (a + 1) \<le> pow2 (ilog2 r)" by (intro pow2_mono) simp
    with b assms show False by linarith
  qed
qed

lemma threshold_eq: "threshold = (2 ^ 53 - 1 / 2) * pow2 971"
proof -
  have "(2::real) ^ 1024 = 2 ^ 53 * 2 ^ 971" by (simp flip: power_add)
  moreover have "(2::real) ^ 971 = 2 * 2 ^ 970" by simp
  ultimately show ?thesis unfolding threshold_def pow2_def by (simp add: algebra_simps)
qed

lemma rounded_mantissa:
  assumes r: "0 < r" "r < threshold"
  defines "e \<equiv> max (ilog2 r) (- 1022)"
  defines "m \<equiv> round_half_even (r / pow2 (e - 52))"
  shows "- 1022 \<le> e" "e \<le> 1023" "0 \<le> m" "m \<le> 2 ^ 53" "e = - 1022 \<or> 2 ^ 52 \<le> m"
    "(e + 1022) * 2 ^ 52 + m < 2047 * 2 ^ 52"
    "\<bar>of_int m * pow2 (e - 52) - r\<bar> \<le> pow2 (e - 53)"
proof -
  let ?q = "r / pow2 (e - 52)"
  note b = ilog2_bounds[OF r(1)]
  show e_lo: "- 1022 \<le> e" by (simp add: e_def)
  have "threshold < pow2 1024" unfolding threshold_def pow2_def by simp
  then have "ilog2 r < 1024"
    using b r pow2_mono[of 1024 "ilog2 r"] by (cases "ilog2 r < 1024") auto
  then show e_hi: "e \<le> 1023" by (simp add: e_def)
  have q0: "0 < ?q" using r pow2_pos by simp
  have p: "pow2 53 = 2 ^ 53" "pow2 52 = 2 ^ 52" "pow2 1 = 2" by (simp_all add: pow2_def)
  have split: "pow2 (e + 1) = pow2 (e - 52) * 2 ^ 53" "pow2 e = pow2 (e - 52) * 2 ^ 52"
    using pow2_add[of "e - 52" 53] pow2_add[of "e - 52" 52] by (simp_all add: p add.commute)
  have "r < pow2 (e + 1)"
    using b pow2_mono[of "ilog2 r + 1" "e + 1"] by (simp add: e_def)
  then have q_hi: "?q < 2 ^ 53"
    using pow2_pos[of "e - 52"] unfolding split by (simp add: field_simps)
  have lo: "?q - 1 / 2 \<le> of_int m" and hi: "of_int m \<le> ?q + 1 / 2"
    unfolding m_def by (rule round_half_even_bounds_lo round_half_even_bounds_hi)+
  have "- 1 < real_of_int m" using lo q0 by linarith
  then show m0: "0 \<le> m" by linarith
  have "real_of_int m < 2 ^ 53 + 1" using hi q_hi by linarith
  then have "real_of_int m < real_of_int (2 ^ 53 + 1)" by simp
  then have "m < 2 ^ 53 + 1" by (simp only: of_int_less_iff)
  then show m_hi: "m \<le> 2 ^ 53" by simp
  show nrm: "e = - 1022 \<or> 2 ^ 52 \<le> m"
  proof (cases "e = - 1022")
    case False
    then have "e = ilog2 r" by (simp add: e_def max_def split: if_splits)
    then have "pow2 e \<le> r" using b by simp
    then have "2 ^ 52 \<le> ?q"
      using pow2_pos[of "e - 52"] unfolding split by (simp add: field_simps)
    then have "2 ^ 52 - 1 < real_of_int m" using lo by linarith
    then have "real_of_int (2 ^ 52 - 1) < real_of_int m" by simp
    then have "2 ^ 52 - 1 < m" by (simp only: of_int_less_iff)
    then show ?thesis by simp
  qed simp
  show "(e + 1022) * 2 ^ 52 + m < 2047 * 2 ^ 52"
  proof (cases "e = 1023")
    case True
    have "?q < 2 ^ 53 - 1 / 2"
      using r(2) pow2_pos[of 971] unfolding threshold_eq True by (simp add: field_simps)
    then have "real_of_int m < 2 ^ 53" using hi by linarith
    then have "real_of_int m < real_of_int (2 ^ 53)" by simp
    then have "m < 2 ^ 53" by (simp only: of_int_less_iff)
    then show ?thesis using True by simp
  next
    case False
    with e_hi have "e \<le> 1022" by simp
    then have "(e + 1022) * 2 ^ 52 \<le> 2044 * (2 ^ 52 :: int)" by simp
    then show ?thesis using m_hi by simp
  qed
  have eq: "of_int m * pow2 (e - 52) - r = (of_int m - ?q) * pow2 (e - 52)"
    using pow2_pos[of "e - 52"] by (simp add: field_simps)
  have d: "\<bar>of_int m - ?q\<bar> \<le> 1 / 2" using lo hi by linarith
  have P: "0 \<le> pow2 (e - 52)" using pow2_pos[of "e - 52"] by simp
  have h: "pow2 (e - 53) = 1 / 2 * pow2 (e - 52)"
    using pow2_add[of "e - 53" 1] by (simp add: p)
  have "\<bar>(of_int m - ?q) * pow2 (e - 52)\<bar> = \<bar>of_int m - ?q\<bar> * pow2 (e - 52)"
    using P by (simp add: abs_mult)
  also have "\<dots> \<le> 1 / 2 * pow2 (e - 52)" by (rule mult_right_mono[OF d P])
  finally show "\<bar>of_int m * pow2 (e - 52) - r\<bar> \<le> pow2 (e - 53)"
    unfolding eq h .
qed

lemma fround_nearest:
  assumes "0 < r" "r < threshold"
  shows "is_finite (fround s r)"
    and "valof (fround s r) =
         (if s then - 1 else 1) *
         of_int (round_half_even (r / pow2 (max (ilog2 r) (- 1022) - 52))) *
         pow2 (max (ilog2 r) (- 1022) - 52)"
    and "\<bar>\<bar>valof (fround s r)\<bar> - r\<bar> \<le> pow2 (max (ilog2 r) (- 1022) - 53)"
proof -
  let ?e = "max (ilog2 r) (- 1022)"
  let ?m = "round_half_even (r / pow2 (?e - 52))"
  note rm = rounded_mantissa[OF assms]
  have fr: "fround s r = encode s ((?e + 1022) * 2 ^ 52 + ?m)"
    using assms by (simp add: fround_def round_at_def)
  show "is_finite (fround s r)"
    unfolding fr by (rule valof_encode(1)[OF rm(1,3,4,5,6)])
  show v: "valof (fround s r) = (if s then - 1 else 1) * of_int ?m * pow2 (?e - 52)"
    unfolding fr by (rule valof_encode(2)[OF rm(1,3,4,5,6)])
  have "\<bar>valof (fround s r)\<bar> = of_int ?m * pow2 (?e - 52)"
    unfolding v using rm(3) pow2_pos[of "?e - 52"] by (simp add: abs_mult)
  then show "\<bar>\<bar>valof (fround s r)\<bar> - r\<bar> \<le> pow2 (?e - 53)"
    using rm(7) by simp
qed

lemma exp_field_bounds: "0 \<le> uint (w :: 11 word)" "uint (w :: 11 word) < 2048"
  using uint_lt2p[of w] by simp_all

lemma frac_field_bounds: "0 \<le> uint (w :: 52 word)" "uint (w :: 52 word) < 2 ^ 52"
  using uint_lt2p[of w] by simp_all

lemma finite_exp: "is_finite x \<Longrightarrow> uint (exponent_field x) < 2047"
proof -
  assume "is_finite x"
  then have "uint (exponent_field x) \<noteq> uint (2047 :: 11 word)"
    unfolding is_finite_def by (simp only: word_uint_eq_iff[symmetric] not_False_eq_True)
  then show ?thesis using exp_field_bounds[of "exponent_field x"] by simp
qed

lemma exp_zero: "exponent_field x = 0 \<longleftrightarrow> uint (exponent_field x) = 0"
  by (simp add: uint_0_iff)

lemma abs_valof: "\<bar>valof x\<bar> = of_int (mantissa x) * pow2 (exponent x)"
proof -
  have "0 \<le> mantissa x"
    using frac_field_bounds[of "fraction_field x"] by (simp add: mantissa_def)
  then show ?thesis using pow2_pos[of "exponent x"] by (simp add: valof_def abs_mult)
qed

lemma threshold_gt_min: "pow2 (- 1022) < threshold"
proof -
  have "pow2 (- 1022) < pow2 0" by (rule pow2_strict) simp
  moreover have "pow2 0 = 1" by (simp add: pow2_def)
  moreover have "1 < (2::real) ^ 64" by simp
  ultimately show ?thesis using threshold_gt by linarith
qed

lemma fround_encode:
  assumes "0 < r" "r < threshold"
  shows "fround s r = encode s ((max (ilog2 r) (- 1022) + 1022) * 2 ^ 52 +
           round_half_even (r / pow2 (max (ilog2 r) (- 1022) - 52)))"
  using assms by (simp add: fround_def round_at_def)

lemma fround_valof:
  assumes "is_finite x"
  shows "fround (sign_bit x) \<bar>valof x\<bar> = x"
proof (cases x)
  case (Double s E F)
  define ef where "ef = uint E"
  define ff where "ff = uint F"
  have E: "0 \<le> ef" "ef < 2047"
    using finite_exp[OF assms] exp_field_bounds[of E] Double by (simp_all add: ef_def)
  have F: "0 \<le> ff" "ff < 2 ^ 52" using frac_field_bounds[of F] by (simp_all add: ff_def)
  have Ez: "E = 0 \<longleftrightarrow> ef = 0" by (simp add: uint_0_iff ef_def)
  have Fz: "F = 0 \<longleftrightarrow> ff = 0" by (simp add: uint_0_iff ff_def)
  have words: "word_of_int ef = E" "word_of_int ff = F" by (simp_all add: ef_def ff_def)
  have s: "sign_bit x = s" using Double by simp
  have man: "mantissa x = (if ef = 0 then ff else 2 ^ 52 + ff)"
    using Double Ez by (simp add: mantissa_def ff_def)
  have expo: "exponent x = (if ef = 0 then - 1074 else ef - 1075)"
    using Double Ez by (simp add: exponent_def ef_def)
  show ?thesis
  proof (cases "ef = 0")
    case sub: True
    then have E0: "E = 0" using Ez by simp
    have r: "\<bar>valof x\<bar> = of_int ff * pow2 (- 1074)"
      unfolding abs_valof man expo using sub by simp
    show ?thesis
    proof (cases "ff = 0")
      case True
      then have "F = 0" using Fz by simp
      then show ?thesis unfolding r s using Double E0 True by (simp add: fround_def)
    next
      case False
      with F have Fpos: "0 < ff" by linarith
      let ?r = "of_int ff * pow2 (- 1074)"
      have rpos: "0 < ?r" using Fpos pow2_pos[of "- 1074"] by simp
      have "real_of_int ff < real_of_int (2 ^ 52)" using F(2) by (simp only: of_int_less_iff)
      then have "?r < 2 ^ 52 * pow2 (- 1074)"
        using pow2_pos[of "- 1074"] by simp
      moreover have "pow2 52 = 2 ^ 52" by (simp add: pow2_def)
      then have "2 ^ 52 * pow2 (- 1074) = pow2 (- 1022)"
        using pow2_add[of 52 "- 1074"] by simp
      ultimately have rsmall: "?r < pow2 (- 1022)" by simp
      then have rthr: "?r < threshold" using threshold_gt_min by linarith
      have "ilog2 ?r < - 1022"
      proof (rule ccontr)
        assume "\<not> ilog2 ?r < - 1022"
        then have "pow2 (- 1022) \<le> pow2 (ilog2 ?r)" by (intro pow2_mono) simp
        with ilog2_bounds[OF rpos] rsmall show False by linarith
      qed
      then have e: "max (ilog2 ?r) (- 1022) = - 1022" by simp
      have q: "?r / pow2 (- 1022 - 52) = of_int ff" using pow2_pos[of "- 1074"] by simp
      have bits: "(- 1022 + 1022) * 2 ^ 52 + ff = 0 * 2 ^ 52 + ff" by simp
      have dm: "(0 * 2 ^ 52 + ff) div 2 ^ 52 = 0" "(0 * 2 ^ 52 + ff) mod 2 ^ 52 = ff"
        using F by (intro divmod_split; simp)+
      have "fround s ?r = encode s (0 * 2 ^ 52 + ff)"
        unfolding fround_encode[OF rpos rthr] e q round_half_even_int bits ..
      also have "\<dots> = Double s (word_of_int 0) (word_of_int ff)"
        unfolding encode_def dm ..
      also have "\<dots> = x" using Double E0 words by simp
      finally show ?thesis unfolding r s .
    qed
  next
    case nor: False
    with E have Epos: "0 < ef" by linarith
    let ?M = "2 ^ 52 + ff" and ?ex = "ef - 1075"
    let ?r = "of_int ?M * pow2 ?ex"
    have r: "\<bar>valof x\<bar> = ?r"
      unfolding abs_valof man expo using nor by simp
    have M: "2 ^ 52 \<le> ?M" "?M < 2 ^ 53" using F by simp_all
    have "0 < real_of_int ?M" using M(1) by (simp only: of_int_0_less_iff) simp
    then have rpos: "0 < ?r" using pow2_pos[of ?ex] by simp
    have p: "pow2 52 = 2 ^ 52" "pow2 53 = 2 ^ 53" by (simp_all add: pow2_def)
    have lo: "pow2 (?ex + 52) \<le> ?r"
    proof -
      have "real_of_int (2 ^ 52) \<le> real_of_int ?M" using M(1) by (simp only: of_int_le_iff)
      then have "2 ^ 52 * pow2 ?ex \<le> ?r" using pow2_pos[of ?ex] by simp
      then show ?thesis using pow2_add[of ?ex 52] by (simp add: p mult.commute)
    qed
    have hi: "?r < pow2 (?ex + 52 + 1)"
    proof -
      have "real_of_int ?M < real_of_int (2 ^ 53)" using M(2) by (simp only: of_int_less_iff)
      then have "?r < 2 ^ 53 * pow2 ?ex" using pow2_pos[of ?ex] by simp
      then show ?thesis using pow2_add[of ?ex 53] by (simp add: p mult.commute)
    qed
    have il: "ilog2 ?r = ?ex + 52" by (rule ilog2_unique[OF rpos lo hi])
    have e: "max (ilog2 ?r) (- 1022) = ef - 1023" unfolding il using Epos by simp
    have rthr: "?r < threshold"
    proof -
      have "?M \<le> 2 ^ 53 - 1" using M(2) by simp
      then have "real_of_int ?M \<le> real_of_int (2 ^ 53 - 1)" by (simp only: of_int_le_iff)
      then have a: "real_of_int ?M \<le> 2 ^ 53 - 1" by simp
      have b: "pow2 ?ex \<le> pow2 971" using E by (intro pow2_mono) simp
      have "?r \<le> (2 ^ 53 - 1) * pow2 971"
        using a b pow2_pos[of ?ex] by (intro mult_mono) simp_all
      also have "\<dots> < (2 ^ 53 - 1 / 2) * pow2 971"
        using pow2_pos[of 971] by simp
      finally show ?thesis unfolding threshold_eq .
    qed
    have "ef - 1023 - 52 = ?ex" by simp
    then have q: "?r / pow2 (ef - 1023 - 52) = of_int ?M" using pow2_pos[of ?ex] by simp
    have bits: "(ef - 1023 + 1022) * 2 ^ 52 + ?M = ef * 2 ^ 52 + ff" by (simp add: algebra_simps)
    have dm: "(ef * 2 ^ 52 + ff) div 2 ^ 52 = ef" "(ef * 2 ^ 52 + ff) mod 2 ^ 52 = ff"
      using F by (intro divmod_split; simp)+
    have "fround s ?r = encode s (ef * 2 ^ 52 + ff)"
      unfolding fround_encode[OF rpos rthr] e q round_half_even_int bits ..
    also have "\<dots> = Double s (word_of_int ef) (word_of_int ff)"
      unfolding encode_def dm ..
    also have "\<dots> = x" using Double words by simp
    finally show ?thesis unfolding r s .
  qed
qed

subsection \<open>Exact additions\<close>

text \<open>
  An addition of finite doubles is exact if and only if the real sum is the value of some
  finite double.
\<close>

lemma mantissa_nonneg: "0 \<le> mantissa x"
  using frac_field_bounds[of "fraction_field x"] by (simp add: mantissa_def)

lemma mantissa_zero_iff: "mantissa x = 0 \<longleftrightarrow> is_zero x"
proof -
  have "0 \<le> uint (fraction_field x)" by simp
  moreover have "(0::int) < 2 ^ 52" by simp
  ultimately have "2 ^ 52 + uint (fraction_field x) \<noteq> 0" by linarith
  then show ?thesis by (auto simp: mantissa_def is_zero_def uint_0_iff)
qed

lemma valof_zero_iff: "valof x = 0 \<longleftrightarrow> is_zero x"
  using pow2_pos[of "exponent x"] by (simp add: valof_def mantissa_zero_iff)

lemma sign_of_valof: "valof x \<noteq> 0 \<Longrightarrow> sign_bit x = (valof x < 0)"
proof -
  assume nz: "valof x \<noteq> 0"
  then have "mantissa x \<noteq> 0" by (simp add: valof_zero_iff mantissa_zero_iff)
  with mantissa_nonneg[of x] have "0 < real_of_int (mantissa x)" by simp
  then have "0 < real_of_int (mantissa x) * pow2 (exponent x)"
    using pow2_pos[of "exponent x"] by simp
  then show ?thesis by (cases "sign_bit x") (simp_all add: valof_def)
qed

lemma fadd_representable:
  assumes "is_finite x" "is_finite t" "is_finite z" "valof z = valof x + valof t"
  shows "same_number (fadd x t) z"
proof (cases "valof x + valof t = 0")
  case True
  then have "is_zero z" using assms(4) by (simp add: valof_zero_iff)
  then show ?thesis using True assms by (simp add: fadd_finite same_number_def)
next
  case False
  then have "fadd x t = fround (valof z < 0) \<bar>valof z\<bar>"
    using assms by (simp add: fadd_finite)
  also have "\<dots> = z"
    using fround_valof[OF assms(3)] sign_of_valof[of z] False assms(4) by simp
  finally show ?thesis by (simp add: same_number_def)
qed

lemma exact_add_iff:
  "exact_add x t \<longleftrightarrow>
   is_finite x \<and> is_finite t \<and> (\<exists>z. is_finite z \<and> valof z = valof x + valof t)"
proof
  assume "exact_add x t"
  then show "is_finite x \<and> is_finite t \<and> (\<exists>z. is_finite z \<and> valof z = valof x + valof t)"
    unfolding exact_add_def by blast
next
  assume a: "is_finite x \<and> is_finite t \<and> (\<exists>z. is_finite z \<and> valof z = valof x + valof t)"
  then obtain z where z: "is_finite z" "valof z = valof x + valof t" by blast
  from a z have "same_number (fadd x t) z" by (intro fadd_representable) simp_all
  then have "is_finite (fadd x t) \<and> valof (fadd x t) = valof z"
    using z(1) by (auto simp: same_number_def valof_zero zero_class)
  then show "exact_add x t" using a z(2) by (simp add: exact_add_def)
qed

subsection \<open>Magnitudes that cannot overflow\<close>

text \<open>
  Rounding at most doubles a magnitude bound that is a power of two. With coordinates of
  magnitude at most \<open>2 ^ 500\<close> the differences are at most \<open>2 ^ 502\<close>, the products at
  most \<open>2 ^ 1005\<close>, and their differences are finite.
\<close>

lemma pow2_double: "2 * pow2 k = pow2 (k + 1)"
proof -
  have "pow2 1 = 2" by (simp add: pow2_def)
  then show ?thesis using pow2_add[of k 1] by simp
qed

lemma threshold_gt_pow2: "k \<le> 1023 \<Longrightarrow> pow2 k < threshold"
proof -
  assume "k \<le> 1023"
  then have "pow2 k \<le> pow2 1023" by (rule pow2_mono)
  moreover have "pow2 1023 = 2 ^ 1023" by (simp add: pow2_def)
  ultimately show ?thesis using threshold_gt_1023 by linarith
qed

lemma fround_bound:
  assumes r: "0 \<le> r" "r \<le> pow2 k" and k: "- 1022 \<le> k" "k \<le> 1023"
  shows "is_finite (fround s r) \<and> \<bar>valof (fround s r)\<bar> \<le> pow2 (k + 1)"
proof (cases "r = 0")
  case True
  have "valof (Double s 0 0) = 0" by (simp add: valof_zero)
  then show ?thesis using True pow2_pos[of "k + 1"]
    by (simp add: fround_zero is_finite_def)
next
  case False
  with r have rpos: "0 < r" by simp
  have rthr: "r < threshold" using r(2) threshold_gt_pow2[OF k(2)] by linarith
  let ?e = "max (ilog2 r) (- 1022)"
  have "ilog2 r \<le> k"
  proof (rule ccontr)
    assume "\<not> ilog2 r \<le> k"
    then have "pow2 (k + 1) \<le> pow2 (ilog2 r)" by (intro pow2_mono) simp
    moreover have "pow2 k < pow2 (k + 1)" by (rule pow2_strict) simp
    ultimately show False using ilog2_bounds[OF rpos] r(2) by linarith
  qed
  then have "?e - 53 \<le> k" using k(1) by (simp add: max_def)
  then have "pow2 (?e - 53) \<le> pow2 k" by (rule pow2_mono)
  moreover note fround_nearest(1,3)[OF rpos rthr, of s]
  ultimately have "is_finite (fround s r)" "\<bar>valof (fround s r)\<bar> \<le> r + pow2 k"
    by linarith+
  then show ?thesis using r(2) pow2_double[of k] by simp
qed

lemma fadd_bound:
  assumes "is_finite x" "is_finite y" "\<bar>valof x\<bar> \<le> pow2 k" "\<bar>valof y\<bar> \<le> pow2 k"
    and k: "- 1023 \<le> k" "k \<le> 1022"
  shows "is_finite (fadd x y) \<and> \<bar>valof (fadd x y)\<bar> \<le> pow2 (k + 2)"
proof (cases "valof x + valof y = 0")
  case True
  have "valof (Double (sign_bit x \<and> sign_bit y) 0 0) = 0" by (simp add: valof_zero)
  then show ?thesis using True assms(1,2) pow2_pos[of "k + 2"]
    by (simp add: fadd_finite is_finite_def)
next
  case False
  have "\<bar>valof x + valof y\<bar> \<le> pow2 (k + 1)"
    using assms(3,4) pow2_double[of k] by linarith
  from fround_bound[OF _ this, of "valof x + valof y < 0"] k
  have "is_finite (fround (valof x + valof y < 0) \<bar>valof x + valof y\<bar>) \<and>
        \<bar>valof (fround (valof x + valof y < 0) \<bar>valof x + valof y\<bar>)\<bar> \<le> pow2 (k + 1 + 1)"
    by simp
  moreover have "k + 1 + 1 = k + 2" by simp
  ultimately show ?thesis using False assms(1,2) by (simp add: fadd_finite)
qed

lemma fsub_bound:
  assumes "is_finite x" "is_finite y" "\<bar>valof x\<bar> \<le> pow2 k" "\<bar>valof y\<bar> \<le> pow2 k"
    and k: "- 1023 \<le> k" "k \<le> 1022"
  shows "is_finite (fsub x y) \<and> \<bar>valof (fsub x y)\<bar> \<le> pow2 (k + 2)"
  unfolding fsub_def using assms by (intro fadd_bound) simp_all

lemma fmul_bound:
  assumes "is_finite x" "is_finite y" "\<bar>valof x\<bar> \<le> pow2 a" "\<bar>valof y\<bar> \<le> pow2 b"
    and k: "- 1022 \<le> a + b" "a + b \<le> 1023"
  shows "is_finite (fmul x y) \<and> \<bar>valof (fmul x y)\<bar> \<le> pow2 (a + b + 1)"
proof -
  have "\<bar>valof x\<bar> * \<bar>valof y\<bar> \<le> pow2 a * pow2 b"
    using assms(3,4) by (intro mult_mono) (simp_all add: less_imp_le[OF pow2_pos])
  then have "\<bar>valof x\<bar> * \<bar>valof y\<bar> \<le> pow2 (a + b)" by (simp add: pow2_add)
  from fround_bound[OF _ this k, of "sign_bit x \<noteq> sign_bit y"]
  show ?thesis using assms(1,2) by (simp add: fmul_def finite_class)
qed

lemma vsub_bounded:
  assumes "bounded_vec k p" "bounded_vec k q" "- 1023 \<le> k" "k \<le> 1022"
  shows "bounded_vec (k + 2) (vsub p q)"
  using assms fsub_bound[of "vx p" "vx q" k] fsub_bound[of "vy p" "vy q" k]
    fsub_bound[of "vz p" "vz q" k]
  by (simp add: bounded_vec_def finite_vec_def vsub_def vx_def vy_def vz_def)

lemma fmul_502:
  assumes "is_finite x" "is_finite y" "\<bar>valof x\<bar> \<le> pow2 502" "\<bar>valof y\<bar> \<le> pow2 502"
  shows "is_finite (fmul x y)" "\<bar>valof (fmul x y)\<bar> \<le> pow2 1005"
  using fmul_bound[OF assms] by simp_all

lemma fsub_1005:
  assumes "is_finite x" "\<bar>valof x\<bar> \<le> pow2 1005" "is_finite y" "\<bar>valof y\<bar> \<le> pow2 1005"
  shows "is_finite (fsub x y)"
  using fsub_bound[of x y 1005] assms by simp

lemma cross_finite:
  assumes "bounded_vec 502 b" "bounded_vec 502 c"
  shows "is_finite (cross_x b c)" "is_finite (cross_y b c)" "is_finite (cross_z b c)"
proof -
  from assms have f: "is_finite (vx b)" "is_finite (vy b)" "is_finite (vz b)"
      "is_finite (vx c)" "is_finite (vy c)" "is_finite (vz c)"
    and v: "\<bar>valof (vx b)\<bar> \<le> pow2 502" "\<bar>valof (vy b)\<bar> \<le> pow2 502" "\<bar>valof (vz b)\<bar> \<le> pow2 502"
      "\<bar>valof (vx c)\<bar> \<le> pow2 502" "\<bar>valof (vy c)\<bar> \<le> pow2 502" "\<bar>valof (vz c)\<bar> \<le> pow2 502"
    by (simp_all add: bounded_vec_def finite_vec_def)
  show "is_finite (cross_x b c)" "is_finite (cross_y b c)" "is_finite (cross_z b c)"
    unfolding cross_x_def cross_y_def cross_z_def
    by (intro fsub_1005 fmul_502 f v)+
qed

lemma bounded_no_overflow:
  assumes "bounded_vec 500 p0" "bounded_vec 500 p1" "bounded_vec 500 p2" "bounded_vec 500 p3"
  shows "no_overflow p0 p1 p2 p3"
proof -
  have b: "bounded_vec 502 (vsub p0 p3)" "bounded_vec 502 (vsub p1 p3)" "bounded_vec 502 (vsub p2 p3)"
    using vsub_bounded[of 500 _ p3] assms by simp_all
  then show ?thesis
    unfolding no_overflow_def using cross_finite[OF b(2,3)] by (simp add: bounded_vec_def)
qed

section \<open>Evaluating the program on the test data\<close>

lemma pyramid_eval:
  "calculate_volume 4 test_pyramid_vertices 4 test_pyramid_vector_indices =
   Inr (Double False 1020 1501199875790165)"
  by (subst calculate_volume_fold)
    (simp_all add: INT_MAX_def test_pyramid_vertices_def test_pyramid_vector_indices_def vec_def
      arith_ev spec_ev)

lemma slanted_eval:
  "calculate_volume_qfhexahedron test_slanted_parallelepiped_vertices =
   Inr (Double False 1026 4503599627370495)"
  unfolding calculate_volume_qfhexahedron_def
  by (subst calculate_volume_fold)
    (simp_all add: INT_MAX_def test_slanted_parallelepiped_vertices_def vec_def arith_ev spec_ev)

lemma box_eval:
  "calculate_volume_qfhexahedron test_parallelepiped_vertices =
   Inr (Double False 1026 4503599627370495)"
  unfolding calculate_volume_qfhexahedron_def
  by (subst calculate_volume_fold)
    (simp_all add: INT_MAX_def test_parallelepiped_vertices_def vec_def arith_ev spec_ev)

lemma unit_eval:
  "tetrahedron_volume [vec 1 0 0, vec 0 1 0, vec 0 0 1, vec 0 0 0] =
   Inr (Double False 1020 1501199875790165)"
  by (simp add: tetrahedron_volume_points vec_def arith_ev spec_ev)

lemma unit_far_eval:
  "tetrahedron_volume
     [translate (vec 1 0 0) (vec (2 ^ 53) 0 0), translate (vec 0 1 0) (vec (2 ^ 53) 0 0),
      translate (vec 0 0 1) (vec (2 ^ 53) 0 0), translate (vec 0 0 0) (vec (2 ^ 53) 0 0)] =
   Inr (Double False 0 0)"
  by (simp add: tetrahedron_volume_points translate_def vec_def arith_ev spec_ev)

lemma unit_exact:
  "exact_translation (vec 1 0 0) (vec 1 2 3)" "exact_translation (vec 0 1 0) (vec 1 2 3)"
  "exact_translation (vec 0 0 1) (vec 1 2 3)" "exact_translation (vec 0 0 0) (vec 1 2 3)"
  by (simp_all add: exact_translation_def exact_add_def vec_def arith_ev spec_ev)

lemma minus_zero_eval:
  "tetrahedron_volume
     [(Double True 0 0, Double True 0 0, Double True 0 0), vec 0 1 0, vec 0 0 1, vec 0 0 0] =
   Inr (Double True 0 0)"
  by (simp add: tetrahedron_volume_points vec_def arith_ev spec_ev)

lemma minus_zero_translated_eval:
  "tetrahedron_volume
     [translate (Double True 0 0, Double True 0 0, Double True 0 0) (vec 1 1 1),
      translate (vec 0 1 0) (vec 1 1 1), translate (vec 0 0 1) (vec 1 1 1),
      translate (vec 0 0 0) (vec 1 1 1)] =
   Inr (Double False 0 0)"
  by (simp add: tetrahedron_volume_points translate_def vec_def arith_ev spec_ev)

lemma minus_zero_exact:
  "exact_translation (Double True 0 0, Double True 0 0, Double True 0 0) (vec 1 1 1)"
  "exact_translation (vec 0 1 0) (vec 1 1 1)" "exact_translation (vec 0 0 1) (vec 1 1 1)"
  "exact_translation (vec 0 0 0) (vec 1 1 1)"
  by (simp_all add: exact_translation_def exact_add_def vec_def arith_ev spec_ev)

lemma skew_eval:
  "tetrahedron_volume [vec 0 0 (7 / 10), vec 0 3 0, vec 3 0 0, vec 0 0 0] =
   Inr (Double True 1023 225179981368525)"
  by (simp add: tetrahedron_volume_points vec_def arith_ev spec_ev)

lemma skew_swap_01_eval:
  "tetrahedron_volume [vec 0 3 0, vec 0 0 (7 / 10), vec 3 0 0, vec 0 0 0] =
   Inr (Double False 1023 225179981368524)"
  by (simp add: tetrahedron_volume_points vec_def arith_ev spec_ev)

lemma skew_swap_02_eval:
  "tetrahedron_volume [vec 3 0 0, vec 0 3 0, vec 0 0 (7 / 10), vec 0 0 0] =
   Inr (Double False 1023 225179981368524)"
  by (simp add: tetrahedron_volume_points vec_def arith_ev spec_ev)

lemma pyramid_face_0:
  "face_ok test_pyramid_vertices test_pyramid_vector_indices 0"
  "test_pyramid_vector_indices ! nat (3 * 0) = 0 \<or>
   test_pyramid_vector_indices ! nat (3 * 0 + 1) = 0 \<or>
   test_pyramid_vector_indices ! nat (3 * 0 + 2) = 0"
  "no_overflow (test_pyramid_vertices ! nat (test_pyramid_vector_indices ! nat (3 * 0)))
     (test_pyramid_vertices ! nat (test_pyramid_vector_indices ! nat (3 * 0 + 1)))
     (test_pyramid_vertices ! nat (test_pyramid_vector_indices ! nat (3 * 0 + 2)))
     (test_pyramid_vertices ! 0)"
  by (simp_all add: face_ok_def INT_MAX_def no_overflow_def finite_vec_def
      test_pyramid_vertices_def test_pyramid_vector_indices_def vec_def arith_ev spec_ev)

lemma many_faces_eval:
  "calculate_volume 1 [vec 0 0 0] 715827883 (replicate 2147483649 0) = Inl SignedOverflow"
  unfolding calculate_volume_def
  by (rule face_loop_overflow[where k = 715827882]) (simp_all add: INT_MAX_def)

lemma many_faces_readable:
  "3 * 715827883 \<le> int (length (replicate 2147483649 (0::int)))"
  "set (take (nat (3 * 715827883)) (replicate 2147483649 (0::int))) = {0}"
  "INT_MAX < 3 * 715827883 - 1"
  by (simp_all add: INT_MAX_def)

lemma huge_eval:
  "calculate_volume 3 [vec 0 0 0, vec 0 (2 ^ 600) 0, vec 0 0 (2 ^ 600)] 1 [0, 1, 2] = Inr dNaN"
  by (subst calculate_volume_fold)
    (simp_all add: INT_MAX_def vec_def arith_ev spec_ev fround_big fround_mid)

lemma huge_finite:
  "list_all finite_vec [vec 0 0 0, vec 0 (2 ^ 600) 0, vec 0 0 (2 ^ 600)]"
  by (simp add: vec_def finite_vec_def arith_ev spec_ev fround_mid)

section \<open>The claims\<close>

text \<open>
  C1 as amended. On a face list that can be read (\<open>vector_indices\<close> holds the
  \<open>3 * num_trfaces\<close> indices, each of them an index of \<open>vectors\<close>) and whose last index
  position \<open>3 * num_trfaces - 1\<close> is at most \<open>INT_MAX\<close>, so that the index computation
  \<open>i * 3 + j\<close> stays in the range of \<open>int\<close>, \<open>calculate_volume\<close> returns the total that
  starts at \<open>0.0\<close> and adds, for each face \<open>(i, j, k)\<close> in list order, what
  \<open>tetrahedron_volume\<close> returns on the four points
  \<open>vectors[i], vectors[j], vectors[k], vectors[0]\<close>: the fourth point is always the first
  element of the vertex array, whether or not index 0 occurs in the face.
\<close>

theorem calculate_volume_sums_faces:
  assumes "3 * num_trfaces \<le> int (length vector_indices)"
    and "3 * num_trfaces - 1 \<le> INT_MAX"
    and "\<forall>x \<in> set (take (nat (3 * num_trfaces)) vector_indices).
           0 \<le> x \<and> x < int (length vectors)"
  shows "calculate_volume num_vertices vectors num_trfaces vector_indices =
         Inr (foldl (\<lambda>acc (i, j, k).
                       fadd acc (tetrahedronVolume (vectors ! nat i) (vectors ! nat j)
                                                   (vectors ! nat k) (vectors ! 0)))
                    lit_0_0
                    (faces (take (nat (3 * num_trfaces)) vector_indices))) \<and>
         (\<forall>p0 p1 p2 p3.
            tetrahedron_volume [p0, p1, p2, p3] = Inr (tetrahedronVolume p0 p1 p2 p3))"
proof -
  have "add_face vectors = (\<lambda>acc (i, j, k).
          fadd acc (tetrahedronVolume (vectors ! nat i) (vectors ! nat j)
                                      (vectors ! nat k) (vectors ! 0)))"
    by (intro ext) (simp split: prod.splits)
  then show ?thesis
    using calculate_volume_fold[OF assms, of num_vertices]
    by (simp add: polyhedronVolume_def tetrahedron_volume_points)
qed

theorem calculate_volume_sums_faces_witness:
  "calculate_volume 4 test_pyramid_vertices 4 test_pyramid_vector_indices =
   Inr (foldl (\<lambda>acc (i, j, k).
                 fadd acc (tetrahedronVolume
                   (test_pyramid_vertices ! nat i) (test_pyramid_vertices ! nat j)
                   (test_pyramid_vertices ! nat k) (test_pyramid_vertices ! 0)))
              lit_0_0
              [(1, 0, 2), (1, 3, 0), (2, 3, 0), (1, 2, 3)]) \<and>
   (\<forall>p0 p1 p2 p3.
      tetrahedron_volume [p0, p1, p2, p3] = Inr (tetrahedronVolume p0 p1 p2 p3))"
proof -
  have f: "faces (take (nat (3 * 4)) test_pyramid_vector_indices) =
           [(1, 0, 2), (1, 3, 0), (2, 3, 0), (1, 2, 3)]"
    by (simp add: test_pyramid_vector_indices_def)
  have "3 * 4 \<le> int (length test_pyramid_vector_indices)"
    and "3 * 4 - 1 \<le> INT_MAX"
    and "\<forall>x \<in> set (take (nat (3 * 4)) test_pyramid_vector_indices).
           0 \<le> x \<and> x < int (length test_pyramid_vertices)"
    by (simp_all add: test_pyramid_vector_indices_def test_pyramid_vertices_def INT_MAX_def)
  from calculate_volume_sums_faces[OF this, of 4] show ?thesis
    unfolding f .
qed

text \<open>
  C1 as stated fails on a face list of more than \<open>INT_MAX\<close> indices. With one vertex
  and 715827883 faces \<open>(0, 0, 0)\<close> every index is present and is an index of the vertex
  array, and in the last face the computation \<open>715827882 * 3 + 2\<close> of type \<open>int\<close>
  overflows: the call has undefined behaviour and returns no total.
\<close>

theorem calculate_volume_overflow_counterexample:
  "3 * 715827883 \<le> int (length (replicate 2147483649 (0::int))) \<and>
   set (take (nat (3 * 715827883)) (replicate 2147483649 (0::int))) = {0} \<and>
   length [vec 0 0 0] = 1 \<and>
   INT_MAX < 3 * 715827883 - 1 \<and>
   calculate_volume 1 [vec 0 0 0] 715827883 (replicate 2147483649 0) = Inl SignedOverflow"
  by (intro conjI many_faces_readable many_faces_eval) simp

text \<open>
  C2. \<open>tetrahedron_volume\<close> on the points \<open>p0, p1, p2, p3\<close> returns the scalar triple
  product of \<open>a = p0 - p3\<close>, \<open>b = p1 - p3\<close>, \<open>c = p2 - p3\<close>, computed as
  \<open>(a.x*(b.y*c.z - b.z*c.y) + a.y*(b.z*c.x - b.x*c.z) + a.z*(b.x*c.y - b.y*c.x)) / 6.0\<close>
  with one rounded operation for each operator of that expression, in that order.
\<close>

theorem tetrahedron_volume_is_triple_product:
  "tetrahedron_volume (p0 # p1 # p2 # p3 # rest) =
   Inr (fdiv
          (fadd
             (fadd
                (fmul (vx (vsub p0 p3))
                   (fsub (fmul (vy (vsub p1 p3)) (vz (vsub p2 p3)))
                         (fmul (vz (vsub p1 p3)) (vy (vsub p2 p3)))))
                (fmul (vy (vsub p0 p3))
                   (fsub (fmul (vz (vsub p1 p3)) (vx (vsub p2 p3)))
                         (fmul (vx (vsub p1 p3)) (vz (vsub p2 p3))))))
             (fmul (vz (vsub p0 p3))
                (fsub (fmul (vx (vsub p1 p3)) (vy (vsub p2 p3)))
                      (fmul (vy (vsub p1 p3)) (vx (vsub p2 p3))))))
          lit_6_0)"
  by (simp add: tetrahedron_volume_points tetrahedronVolume_def scalar_triple_product_def
      cross_x_def cross_y_def cross_z_def)

text \<open>
  C3. On the pyramid of \<open>test_pyramid\<close> \<open>calculate_volume\<close> returns the double
  \<open>0x3FC5555555555555\<close>. It compares equal to \<open>1/6.0\<close>, as the test asserts, and it
  differs from the real number \<open>1/6\<close> by less than \<open>10^-16\<close>.
\<close>

theorem pyramid_volume:
  "calculate_volume 4 test_pyramid_vertices 4 test_pyramid_vector_indices =
     Inr (Double False 1020 1501199875790165) \<and>
   feq (Double False 1020 1501199875790165) (fdiv (double_of_real 1) lit_6_0) \<and>
   \<bar>valof (Double False 1020 1501199875790165) - 1 / 6\<bar> < 1 / 10 ^ 16"
proof (intro conjI)
  show "calculate_volume 4 test_pyramid_vertices 4 test_pyramid_vector_indices =
        Inr (Double False 1020 1501199875790165)"
    by (rule pyramid_eval)
  show "feq (Double False 1020 1501199875790165) (fdiv (double_of_real 1) lit_6_0)"
    by (simp add: feq_def arith_ev lits)
  show "\<bar>valof (Double False 1020 1501199875790165) - 1 / 6\<bar> < 1 / 10 ^ 16"
    by (simp add: arith_ev)
qed

text \<open>
  C4 as amended. When every coordinate of the four points is translated exactly (the
  operands and the sum are finite and the addition commits no rounding error; by
  \<open>exact_add_iff\<close>, when every translated coordinate is the value of a double),
  \<open>tetrahedron_volume\<close> returns for the translated points the double it returns for the
  original points, except that a result of zero may differ in the sign of the zero.
\<close>

theorem translation_exact:
  assumes "exact_translation p0 t" and "exact_translation p1 t"
    and "exact_translation p2 t" and "exact_translation p3 t"
  shows "\<exists>v v'. tetrahedron_volume [p0, p1, p2, p3] = Inr v \<and>
           tetrahedron_volume
             [translate p0 t, translate p1 t, translate p2 t, translate p3 t] = Inr v' \<and>
           (v' = v \<or> is_zero v' \<and> is_zero v)"
  using tetrahedronVolume_translated[OF assms]
  by (simp add: tetrahedron_volume_points same_number_def)

theorem translation_exact_witness:
  "\<exists>v v'. tetrahedron_volume [vec 1 0 0, vec 0 1 0, vec 0 0 1, vec 0 0 0] = Inr v \<and>
     tetrahedron_volume
       [translate (vec 1 0 0) (vec 1 2 3), translate (vec 0 1 0) (vec 1 2 3),
        translate (vec 0 0 1) (vec 1 2 3), translate (vec 0 0 0) (vec 1 2 3)] = Inr v' \<and>
     (v' = v \<or> is_zero v' \<and> is_zero v)"
  by (rule translation_exact[OF unit_exact])

text \<open>
  C4 as stated fails: the tetrahedron \<open>(1,0,0), (0,1,0), (0,0,1), (0,0,0)\<close> has volume
  \<open>1/6.0\<close>, and translated by \<open>(2^53, 0, 0)\<close> it has volume \<open>0.0\<close>, because
  \<open>1 + 2^53\<close> rounds to \<open>2^53\<close>.
\<close>

theorem translation_counterexample:
  "tetrahedron_volume
     [translate (vec 1 0 0) (vec (2 ^ 53) 0 0), translate (vec 0 1 0) (vec (2 ^ 53) 0 0),
      translate (vec 0 0 1) (vec (2 ^ 53) 0 0), translate (vec 0 0 0) (vec (2 ^ 53) 0 0)] \<noteq>
   tetrahedron_volume [vec 1 0 0, vec 0 1 0, vec 0 0 1, vec 0 0 0] \<and>
   tetrahedron_volume
     [translate (vec 1 0 0) (vec (2 ^ 53) 0 0), translate (vec 0 1 0) (vec (2 ^ 53) 0 0),
      translate (vec 0 0 1) (vec (2 ^ 53) 0 0), translate (vec 0 0 0) (vec (2 ^ 53) 0 0)] =
     Inr (Double False 0 0) \<and>
   tetrahedron_volume [vec 1 0 0, vec 0 1 0, vec 0 0 1, vec 0 0 0] =
     Inr (Double False 1020 1501199875790165)"
  unfolding unit_eval unit_far_eval by simp

text \<open>
  The sign of a zero result can change under an exact translation: with
  \<open>p0 = (-0.0, -0.0, -0.0)\<close> and \<open>p3 = (0.0, 0.0, 0.0)\<close> the volume is \<open>-0.0\<close>, and
  translated by \<open>(1, 1, 1)\<close>, where every addition is exact, it is \<open>+0.0\<close>.
\<close>

lemma translation_changes_zero_sign:
  "exact_translation (Double True 0 0, Double True 0 0, Double True 0 0) (vec 1 1 1) \<and>
   exact_translation (vec 0 1 0) (vec 1 1 1) \<and> exact_translation (vec 0 0 1) (vec 1 1 1) \<and>
   exact_translation (vec 0 0 0) (vec 1 1 1) \<and>
   tetrahedron_volume
     [(Double True 0 0, Double True 0 0, Double True 0 0), vec 0 1 0, vec 0 0 1, vec 0 0 0] =
     Inr (Double True 0 0) \<and>
   tetrahedron_volume
     [translate (Double True 0 0, Double True 0 0, Double True 0 0) (vec 1 1 1),
      translate (vec 0 1 0) (vec 1 1 1), translate (vec 0 0 1) (vec 1 1 1),
      translate (vec 0 0 0) (vec 1 1 1)] =
     Inr (Double False 0 0)"
  by (intro conjI minus_zero_exact minus_zero_eval minus_zero_translated_eval)

text \<open>
  C5 as amended. For a tetrahedron whose volume is neither a zero nor a NaN, swapping
  \<open>p1\<close> and \<open>p2\<close> flips the sign bit of the result and leaves its magnitude bit for
  bit.
\<close>

theorem swap_p1_p2_negates:
  assumes "tetrahedron_volume [p0, p1, p2, p3] = Inr v" and "\<not> is_zero v" and "\<not> is_nan v"
  shows "tetrahedron_volume [p0, p2, p1, p3] = Inr (fneg v)"
proof -
  from assms(1) have v: "v = tetrahedronVolume p0 p1 p2 p3"
    by (simp add: tetrahedron_volume_points)
  have "tetrahedronVolume p0 p2 p1 p3 = fneg v"
    using opposite_tetrahedronVolume[of p0 p2 p1 p3] assms(2,3) unfolding v
    by (rule opposite_exact)
  then show ?thesis by (simp add: tetrahedron_volume_points)
qed

theorem swap_p1_p2_negates_witness:
  "tetrahedron_volume [vec 0 0 (7 / 10), vec 3 0 0, vec 0 3 0, vec 0 0 0] =
   Inr (fneg (Double True 1023 225179981368525))"
  by (rule swap_p1_p2_negates[OF skew_eval]) (simp_all add: is_zero_def is_nan_def)

text \<open>
  C5 as stated fails for the swaps that involve \<open>p0\<close>: the tetrahedron
  \<open>(0,0,0.7), (0,3,0), (3,0,0), (0,0,0)\<close> has volume \<open>-1.05\<close>
  (\<open>0xBFF0CCCCCCCCCCCD\<close>); with \<open>p0\<close> and \<open>p1\<close> swapped, and with \<open>p0\<close> and \<open>p2\<close>
  swapped, the volume is \<open>1.0499999999999998\<close> (\<open>0x3FF0CCCCCCCCCCCC\<close>), of another
  magnitude.
\<close>

theorem swap_counterexample:
  "tetrahedron_volume [vec 0 0 (7 / 10), vec 0 3 0, vec 3 0 0, vec 0 0 0] =
     Inr (Double True 1023 225179981368525) \<and>
   tetrahedron_volume [vec 0 3 0, vec 0 0 (7 / 10), vec 3 0 0, vec 0 0 0] =
     Inr (Double False 1023 225179981368524) \<and>
   tetrahedron_volume [vec 3 0 0, vec 0 3 0, vec 0 0 (7 / 10), vec 0 0 0] =
     Inr (Double False 1023 225179981368524) \<and>
   Double False 1023 225179981368524 \<noteq> fneg (Double True 1023 225179981368525)"
  unfolding skew_eval skew_swap_01_eval skew_swap_02_eval by (simp add: fneg_def)

text \<open>
  C6. On the sheared parallelepiped of \<open>test_slanted_parallelepiped\<close>
  \<open>calculate_volume_qfhexahedron\<close> returns the double \<open>0x402FFFFFFFFFFFFF\<close>, the
  double just below \<open>16.0\<close>: it differs from 16 by less than \<open>10^-14\<close>, it is the value
  returned for the box of \<open>test_parallelepiped\<close>, and the assertion
  \<open>volume - 16.0 < EPSILON\<close> of the test holds.
\<close>

theorem slanted_parallelepiped_volume:
  "calculate_volume_qfhexahedron test_slanted_parallelepiped_vertices =
     Inr (Double False 1026 4503599627370495) \<and>
   \<bar>valof (Double False 1026 4503599627370495) - 16\<bar> < 1 / 10 ^ 14 \<and>
   calculate_volume_qfhexahedron test_parallelepiped_vertices =
     calculate_volume_qfhexahedron test_slanted_parallelepiped_vertices \<and>
   flt (fsub (Double False 1026 4503599627370495) (double_of_real 16)) EPSILON"
proof (intro conjI)
  show "calculate_volume_qfhexahedron test_slanted_parallelepiped_vertices =
        Inr (Double False 1026 4503599627370495)"
    by (rule slanted_eval)
  show "\<bar>valof (Double False 1026 4503599627370495) - 16\<bar> < 1 / 10 ^ 14"
    by (simp add: arith_ev)
  show "calculate_volume_qfhexahedron test_parallelepiped_vertices =
        calculate_volume_qfhexahedron test_slanted_parallelepiped_vertices"
    by (simp only: slanted_eval box_eval)
  show "flt (fsub (Double False 1026 4503599627370495) (double_of_real 16)) EPSILON"
    by (simp add: flt_def extended_less_def EPSILON_def arith_ev)
qed

text \<open>
  C7. With a face count of zero \<open>calculate_volume\<close> returns \<open>+0.0\<close>, whatever the
  vertex array (and the index array) holds.
\<close>

theorem calculate_volume_no_faces:
  "calculate_volume num_vertices vectors 0 vector_indices = Inr (Double False 0 0)"
  by (simp add: calculate_volume_def face_loop.simps lits)

text \<open>
  C8. The result of \<open>tetrahedron_volume\<close> is a function of the four points it is given:
  two calls on the same four points return the same bit pattern, whatever else lies behind
  the pointer.
\<close>

theorem tetrahedron_volume_deterministic:
  "tetrahedron_volume (p0 # p1 # p2 # p3 # rest) =
   tetrahedron_volume (p0 # p1 # p2 # p3 # rest')"
  by (simp add: tetrahedron_volume_points)

text \<open>
  C9. \<open>calculate_volume\<close> never reads \<open>num_vertices\<close>: two calls that differ only in
  it return the same result.
\<close>

theorem calculate_volume_ignores_num_vertices:
  "calculate_volume n1 vectors num_trfaces vector_indices =
   calculate_volume n2 vectors num_trfaces vector_indices"
  by (simp add: calculate_volume_def)

text \<open>
  C10 as amended. Let face \<open>f\<close> of the face list be readable and hold index 0, and let
  no intermediate result of \<open>tetrahedron_volume\<close> on its tetrahedron overflow: the nine
  coordinate differences and the three components of the cross product are finite. Then
  the turn of the loop of \<open>calculate_volume\<close> for face \<open>f\<close> fills the buffer, the call
  of \<open>tetrahedron_volume\<close> on the buffer returns a zero (\<open>+0.0\<close> or \<open>-0.0\<close>, both
  equal to \<open>0.0\<close>), and that zero is what the turn adds to the running volume.
\<close>

theorem face_with_index_0_contributes_zero:
  assumes "face_ok vectors vector_indices f" and "f < num_trfaces"
    and "vector_indices ! nat (3 * f) = 0 \<or> vector_indices ! nat (3 * f + 1) = 0 \<or>
         vector_indices ! nat (3 * f + 2) = 0"
    and "no_overflow (vectors ! nat (vector_indices ! nat (3 * f)))
           (vectors ! nat (vector_indices ! nat (3 * f + 1)))
           (vectors ! nat (vector_indices ! nat (3 * f + 2))) (vectors ! 0)"
  shows "\<exists>t v. fill_tetrahedron vectors vector_indices f = Inr t \<and>
            tetrahedron_volume t = Inr v \<and> is_zero v \<and>
            face_loop vectors num_trfaces vector_indices f volume =
            face_loop vectors num_trfaces vector_indices (f + 1) (fadd volume v)"
  using assms by (rule zero_face_step)

theorem face_with_index_0_contributes_zero_witness:
  "\<exists>t v. fill_tetrahedron test_pyramid_vertices test_pyramid_vector_indices 0 = Inr t \<and>
      tetrahedron_volume t = Inr v \<and> is_zero v \<and>
      face_loop test_pyramid_vertices 4 test_pyramid_vector_indices 0 lit_0_0 =
      face_loop test_pyramid_vertices 4 test_pyramid_vector_indices (0 + 1) (fadd lit_0_0 v)"
  by (rule face_with_index_0_contributes_zero[OF pyramid_face_0(1) _ pyramid_face_0(2,3)]) simp

text \<open>
  C10 as stated fails: the vertices \<open>(0,0,0), (0,2^600,0), (0,0,2^600)\<close> are finite, and
  the one face \<open>(0, 1, 2)\<close> contributes a NaN, because \<open>2^600 * 2^600\<close> overflows to
  infinity and zero times infinity is a NaN.
\<close>

theorem face_with_index_0_counterexample:
  "list_all finite_vec [vec 0 0 0, vec 0 (2 ^ 600) 0, vec 0 0 (2 ^ 600)] \<and>
   calculate_volume 3 [vec 0 0 0, vec 0 (2 ^ 600) 0, vec 0 0 (2 ^ 600)] 1 [0, 1, 2] =
     Inr dNaN \<and>
   \<not> is_zero dNaN"
proof (intro conjI)
  show "list_all finite_vec [vec 0 0 0, vec 0 (2 ^ 600) 0, vec 0 0 (2 ^ 600)]"
    by (rule huge_finite)
  show "calculate_volume 3 [vec 0 0 0, vec 0 (2 ^ 600) 0, vec 0 0 (2 ^ 600)] 1 [0, 1, 2] =
        Inr dNaN"
    by (rule huge_eval)
  show "\<not> is_zero dNaN"
    by (simp add: is_zero_def dNaN_def)
qed

text \<open>
  The condition of the amended claim holds for every vertex array whose coordinates are
  finite and of magnitude at most \<open>2 ^ 500\<close>.
\<close>

corollary bounded_face_with_index_0:
  assumes "face_ok vectors vector_indices f" and "f < num_trfaces"
    and "vector_indices ! nat (3 * f) = 0 \<or> vector_indices ! nat (3 * f + 1) = 0 \<or>
         vector_indices ! nat (3 * f + 2) = 0"
    and "bounded_vec 500 (vectors ! nat (vector_indices ! nat (3 * f)))"
    and "bounded_vec 500 (vectors ! nat (vector_indices ! nat (3 * f + 1)))"
    and "bounded_vec 500 (vectors ! nat (vector_indices ! nat (3 * f + 2)))"
    and "bounded_vec 500 (vectors ! 0)"
  shows "\<exists>t v. fill_tetrahedron vectors vector_indices f = Inr t \<and>
            tetrahedron_volume t = Inr v \<and> is_zero v \<and>
            face_loop vectors num_trfaces vector_indices f volume =
            face_loop vectors num_trfaces vector_indices (f + 1) (fadd volume v)"
  using assms(1-3) bounded_no_overflow[OF assms(4-7)] by (rule zero_face_step)

end
